theory Spec2Isabelle
  imports Complex_Main "HOL-Library.Multiset"
begin

section \<open>Data model\<close>

text \<open>
  The program (\<^verbatim>\<open>app.py\<close>) moves one pandas DataFrame through its stages. A frame
  is modelled row-major: the column labels, the dtype of each column, and the rows, each a
  list of cells in column order. A cell is a Python string, a float64 other than NaN, or
  NaN (pandas' marker of a missing value). A float64 other than NaN is the rational it
  denotes or one of the two infinities; the arithmetic on them, with its rounding, is the
  library's and a parameter where the program computes with them. The row index of a
  frame is not modelled.
\<close>

datatype float64 = Finite rat | PosInf | NegInf

datatype cell = Str string | Num float64 | NaN

datatype dtype = Object | Number

datatype error =
    KeyError string
  | ValueError
  | IndexError
  | AttributeError
  | TypeError
  | ProviderError

record DataFrame =
  columns :: "string list"
  dtypes :: "dtype list"
  rows :: "cell list list"

text \<open>Position of the first column with label \<open>c\<close>.\<close>

fun get_loc :: "string list \<Rightarrow> string \<Rightarrow> nat option" where
  "get_loc [] c = None"
| "get_loc (x # xs) c = (if x = c then Some 0 else map_option Suc (get_loc xs c))"

text \<open>
  The cell of a row at a position. \<^verbatim>\<open>DataFrame.from_dict\<close> fills the keys a record
  lacks with NaN, so a row shorter than the header reads as NaN there.
\<close>

definition iloc :: "cell list \<Rightarrow> nat \<Rightarrow> cell" where
  "iloc r i = (if i < length r then r ! i else NaN)"

text \<open>\<^verbatim>\<open>df[c]\<close>: the values of column \<open>c\<close>, or KeyError.\<close>

definition getitem :: "DataFrame \<Rightarrow> string \<Rightarrow> error + cell list" where
  "getitem df c =
     (case get_loc (columns df) c of
        None \<Rightarrow> Inl (KeyError c)
      | Some i \<Rightarrow> Inr (map (\<lambda>r. iloc r i) (rows df)))"

section \<open>The gradebook: \<^verbatim>\<open>CanvasCourse\<close>\<close>

text \<open>
  A roster entry is the profile of one enrolled student, as \<^verbatim>\<open>get_profile()\<close> returns
  it (the fields the program reads: \<^verbatim>\<open>id\<close>, \<^verbatim>\<open>name\<close>, \<^verbatim>\<open>login_id\<close>).
\<close>

record profile =
  uid :: int
  name :: string
  login_id :: string

text \<open>
  What a run leaves behind: what was printed (a line, or a column of a frame), the
  user ids the gradebook was asked about, the grades posted to it (user id and score), each
  in order, and the two files written.
\<close>

datatype printed = Line string | Series "cell list"

record world =
  stdout :: "printed list"
  requests :: "int list"
  posted :: "(int \<times> nat) list"
  report_csv :: "(string \<times> float64 option) list option"
  out_csv :: "DataFrame option"

text \<open>
  \<^verbatim>\<open>set_score\<close> prints its line, then asks the provider about the student
  (\<^verbatim>\<open>assignment.get_submission(...)\<close>) and posts the grade (\<^verbatim>\<open>submission.edit(...)\<close>).
  The provider is the parameter \<open>fails\<close>: whether these calls raise for the student.
  The function has no \<^verbatim>\<open>try\<close>: what the provider raises leaves the function.
\<close>

definition set_score ::
  "(profile \<Rightarrow> bool) \<Rightarrow> profile \<Rightarrow> nat \<Rightarrow> world \<Rightarrow> world \<times> (error + unit)" where
  "set_score fails student score w =
     (let userinfo = (if score = 0 then ''Marking absent: '' else ''Marking present: '');
          w1 = w\<lparr>stdout := stdout w @ [Line (userinfo @ name student)]\<rparr>;
          w2 = w1\<lparr>requests := requests w1 @ [uid student]\<rparr>
      in if fails student then (w2, Inl ProviderError)
         else (w2\<lparr>posted := posted w2 @ [(uid student, score)]\<rparr>, Inr ()))"

text \<open>
  \<^verbatim>\<open>frame.apply(f, axis=1)\<close> for an \<open>f\<close> with effects: the rows in order, stopping at the
  first exception. (Over a frame without rows pandas calls \<open>f\<close> once on a placeholder row
  to learn the shape of its result and discards what that call raises; the placeholder has
  no user id, so the call ends before any request to the gradebook. It is left out.)
\<close>

fun apply_rows ::
  "('r \<Rightarrow> world \<Rightarrow> world \<times> (error + unit)) \<Rightarrow> 'r list \<Rightarrow> world \<Rightarrow> world \<times> (error + unit)" where
  "apply_rows f [] w = (w, Inr ())"
| "apply_rows f (x # xs) w =
     (case f x w of
        (w', Inl e) \<Rightarrow> (w', Inl e)
      | (w', Inr _) \<Rightarrow> apply_rows f xs w')"

text \<open>\<^verbatim>\<open>series.isin(values)\<close> for one string of the series.\<close>

definition isin :: "string \<Rightarrow> cell list \<Rightarrow> bool" where
  "isin s vals = (Str s \<in> set vals)"

text \<open>
  \<^verbatim>\<open>canvas_upload\<close>. \<open>users\<close> are the profiles the course returns for its students;
  fetching them and the assignment is the provider's part and taken as done. With no
  student, \<^verbatim>\<open>uids\<close> is a frame without columns and \<^verbatim>\<open>uids["login_id"]\<close> raises
  KeyError. The absent students are scored first, then the present ones.
\<close>

definition canvas_upload ::
  "(profile \<Rightarrow> bool) \<Rightarrow> profile list \<Rightarrow> DataFrame \<Rightarrow> world \<Rightarrow> world \<times> (error + unit)" where
  "canvas_upload fails users df w =
     (let w0 = w\<lparr>stdout := stdout w @ [Line ''Generating user list! This might take a while...'']\<rparr>
      in if users = [] then (w0, Inl (KeyError ''login_id''))
         else
           (case getitem df ''respondentEmail'' of
              Inl e \<Rightarrow> (w0, Inl e)
            | Inr emails \<Rightarrow>
                (let absent = filter (\<lambda>u. \<not> isin (login_id u) emails) users
                 in case apply_rows (\<lambda>x. set_score fails x 0) absent w0 of
                      (w1, Inl e) \<Rightarrow> (w1, Inl e)
                    | (w1, Inr _) \<Rightarrow>
                        (let present = filter (\<lambda>u. isin (login_id u) emails) users
                         in apply_rows (\<lambda>x. set_score fails x 1) present w1))))"

text \<open>
  The decision for a roster entry: its user id with the score it is due, 1 when its
  \<^verbatim>\<open>login_id\<close> is among the \<^verbatim>\<open>respondentEmail\<close> values and 0 otherwise.
\<close>

definition decision :: "cell list \<Rightarrow> profile \<Rightarrow> int \<times> nat" where
  "decision emails u = (uid u, if isin (login_id u) emails then 1 else 0)"

section \<open>Strings\<close>

text \<open>
  A Python string is modelled as the list of its code points, all below 256.
  \<^verbatim>\<open>str.isspace\<close> and \<^verbatim>\<open>str.lower\<close> are written out for that range.
\<close>

definition isspace :: "char \<Rightarrow> bool" where
  "isspace c =
     (let n = (of_char c :: nat)
      in (9 \<le> n \<and> n \<le> 13) \<or> (28 \<le> n \<and> n \<le> 32) \<or> n = 133 \<or> n = 160)"

definition lower_char :: "char \<Rightarrow> char" where
  "lower_char c =
     (let n = (of_char c :: nat)
      in if (65 \<le> n \<and> n \<le> 90) \<or> (192 \<le> n \<and> n \<le> 214) \<or> (216 \<le> n \<and> n \<le> 222)
         then char_of (n + 32) else c)"

text \<open>\<^verbatim>\<open>s.strip()\<close> and \<^verbatim>\<open>s.lower()\<close>.\<close>

definition py_strip :: "string \<Rightarrow> string" where
  "py_strip s = rev (dropWhile isspace (rev (dropWhile isspace s)))"

definition py_lower :: "string \<Rightarrow> string" where
  "py_lower s = map lower_char s"

text \<open>\<^verbatim>\<open>s.endswith(suf)\<close> and \<^verbatim>\<open>sub in s\<close>.\<close>

definition endswith :: "string \<Rightarrow> string \<Rightarrow> bool" where
  "endswith s suf = (length suf \<le> length s \<and> drop (length s - length suf) s = suf)"

fun py_in :: "string \<Rightarrow> string \<Rightarrow> bool" where
  "py_in sub [] = (sub = [])"
| "py_in sub (c # cs) = (take (length sub) (c # cs) = sub \<or> py_in sub cs)"

text \<open>
  \<^verbatim>\<open>re.findall(r"_[^_]*_", x)\<close>, its first element: the leftmost match runs from the
  first underscore of \<open>x\<close> to the next one. With fewer than two underscores the list is
  empty (None here) and \<^verbatim>\<open>[0]\<close> raises IndexError.
\<close>

definition findall_first :: "string \<Rightarrow> string option" where
  "findall_first x =
     (case dropWhile (\<lambda>c. c \<noteq> CHR ''_'') x of
        [] \<Rightarrow> None
      | u # rest \<Rightarrow>
          (if CHR ''_'' \<in> set rest
           then Some (CHR ''_'' # takeWhile (\<lambda>c. c \<noteq> CHR ''_'') rest @ ''_'')
           else None))"

text \<open>\<^verbatim>\<open>m.replace("_", "")\<close>.\<close>

definition replace_underscore :: "string \<Rightarrow> string" where
  "replace_underscore m = filter (\<lambda>c. c \<noteq> CHR ''_'') m"

section \<open>Errors in sequence\<close>

text \<open>A list of results, computed left to right: the first error, or all the values.\<close>

fun sequence :: "(error + 'a) list \<Rightarrow> error + 'a list" where
  "sequence [] = Inr []"
| "sequence (Inl e # xs) = Inl e"
| "sequence (Inr v # xs) = (case sequence xs of Inl e \<Rightarrow> Inl e | Inr vs \<Rightarrow> Inr (v # vs))"

section \<open>The survey: \<^verbatim>\<open>AttendanceForm\<close>\<close>

text \<open>
  \<^verbatim>\<open>pd.DataFrame.from_dict\<close> of the flattened responses. A response is a flat dict
  from field keys to strings, written as an association list. The columns are the keys in
  the order they first appear; a key a response lacks is NaN in its row.
\<close>

definition union_keys :: "string list \<Rightarrow> string list" where
  "union_keys ks = foldl (\<lambda>acc k. if k \<in> set acc then acc else acc @ [k]) [] ks"

definition lookup :: "(string \<times> string) list \<Rightarrow> string \<Rightarrow> cell" where
  "lookup r c = (case map_of r c of None \<Rightarrow> NaN | Some v \<Rightarrow> Str v)"

definition from_dict :: "(string \<times> string) list list \<Rightarrow> DataFrame" where
  "from_dict responses =
     (let cols = union_keys (concat (map (map fst) responses))
      in \<lparr>columns = cols,
          dtypes = map (\<lambda>c. Object) cols,
          rows = map (\<lambda>r. map (lookup r) cols) responses\<rparr>)"

text \<open>
  \<^verbatim>\<open>flatten\<close> joins the keys of nested dicts with an underscore. The provider nests
  the answers of a response under \<^verbatim>\<open>answers\<close> and the question's id, so the leaf at
  \<open>path\<close> of the answer to question \<open>qid\<close> has this key.
\<close>

definition field_key :: "string \<Rightarrow> string \<Rightarrow> string" where
  "field_key qid path = ''answers_'' @ qid @ ''_'' @ path"

text \<open>The elements of a list at the positions marked True.\<close>

definition select :: "bool list \<Rightarrow> 'a list \<Rightarrow> 'a list" where
  "select keep xs = map snd (filter fst (zip keep xs))"

text \<open>
  \<^verbatim>\<open>df.drop(columns=labels)\<close>: every column whose label is among \<open>labels\<close> goes. The
  program only passes labels taken from the frame's own columns, so the KeyError of an
  unknown label cannot arise.
\<close>

definition drop_columns :: "DataFrame \<Rightarrow> string list \<Rightarrow> DataFrame" where
  "drop_columns df labels =
     (let keep = map (\<lambda>c. c \<notin> set labels) (columns df)
      in \<lparr>columns = select keep (columns df),
          dtypes = select keep (dtypes df),
          rows = map (\<lambda>r. select keep (map (iloc r) [0..<length (columns df)])) (rows df)\<rparr>)"

text \<open>
  \<^verbatim>\<open>clean_column_index\<close>. Assigning \<^verbatim>\<open>df.columns\<close> a list of another length raises
  ValueError.
\<close>

definition clean_column_index :: "DataFrame \<Rightarrow> error + (DataFrame \<times> string list)" where
  "clean_column_index df0 =
     (let df = drop_columns df0 (filter (\<lambda>x. endswith x ''questionId'') (columns df0));
          col_keys = filter (\<lambda>x. py_in ''_'' x) (columns df)
      in case those (map findall_first col_keys) of
           None \<Rightarrow> Inl IndexError
         | Some ms \<Rightarrow>
             (let col_keys = map replace_underscore ms;
                  new_columns = take 4 (columns df) @ col_keys
              in if length new_columns \<noteq> length (columns df) then Inl ValueError
                 else Inr (df\<lparr>columns := new_columns\<rparr>, col_keys)))"

text \<open>
  \<^verbatim>\<open>get_attendance\<close>. \<open>responses\<close> is what \<^verbatim>\<open>get_form_responses\<close> returns and
  \<open>q_titles\<close> the dict of \<^verbatim>\<open>get_question_ids\<close>, from question id to title.
\<close>

definition get_attendance ::
  "(string \<times> string) list list \<Rightarrow> (string \<rightharpoonup> string) \<Rightarrow> error + DataFrame" where
  "get_attendance responses q_titles =
     (case clean_column_index (from_dict responses) of
        Inl e \<Rightarrow> Inl e
      | Inr (df, keys) \<Rightarrow>
          (let dropcols = filter (\<lambda>k. q_titles k = None) keys;
               df = drop_columns df dropcols
           in Inr (df\<lparr>columns :=
                        map (\<lambda>x. case q_titles x of Some t \<Rightarrow> t | None \<Rightarrow> x) (columns df)\<rparr>)))"

section \<open>The time window: \<^verbatim>\<open>filter_by_day\<close>\<close>

text \<open>
  An instant is a number of nanoseconds since the epoch, in the time zone of the
  provider's timestamps (Zulu). \<^verbatim>\<open>pd.DatetimeIndex\<close> parses the strings of the column:
  its parser is the parameter \<open>parse_time\<close>. A string is rejected (the parser raises
  ValueError), read as NaT, the missing instant (the empty string is), or read as an
  instant. NaN becomes NaT (None here). A number counts as nanoseconds and an infinity is
  out of bounds; the columns of the run hold no numbers at this stage.
\<close>

datatype parsed = Rejected | NaT | Instant int

definition to_datetime :: "(string \<Rightarrow> parsed) \<Rightarrow> cell \<Rightarrow> error + int option" where
  "to_datetime parse_time c =
     (case c of
        Str s \<Rightarrow> (case parse_time s of
                    Rejected \<Rightarrow> Inl ValueError
                  | NaT \<Rightarrow> Inr None
                  | Instant t \<Rightarrow> Inr (Some t))
      | Num x \<Rightarrow> (case x of Finite q \<Rightarrow> Inr (Some \<lfloor>q\<rfloor>) | PosInf \<Rightarrow> Inl ValueError
                  | NegInf \<Rightarrow> Inl ValueError)
      | NaN \<Rightarrow> Inr None)"

text \<open>
  \<^verbatim>\<open>sort_index()\<close> on rows paired with their index value: ascending, NaT last. The
  library leaves the order of equal instants open; the model keeps their input order.
\<close>

fun stamped :: "(int option \<times> 'a) list \<Rightarrow> (int \<times> 'a) list" where
  "stamped [] = []"
| "stamped ((Some t, r) # xs) = (t, r) # stamped xs"
| "stamped ((None, r) # xs) = stamped xs"

definition sort_index :: "(int option \<times> 'a) list \<Rightarrow> (int option \<times> 'a) list" where
  "sort_index xs =
     map (\<lambda>(t, r). (Some t, r)) (sort_key fst (stamped xs)) @ filter (\<lambda>(t, r). t = None) xs"

definition is_monotonic_increasing :: "int option list \<Rightarrow> bool" where
  "is_monotonic_increasing idx = (None \<notin> set idx \<and> sorted (map the idx))"

definition not_before :: "int \<Rightarrow> int option \<Rightarrow> bool" where
  "not_before lo t = (case t of None \<Rightarrow> False | Some v \<Rightarrow> lo \<le> v)"

definition not_after :: "int \<Rightarrow> int option \<Rightarrow> bool" where
  "not_after hi t = (case t of None \<Rightarrow> False | Some v \<Rightarrow> v \<le> hi)"

text \<open>
  \<^verbatim>\<open>.loc[lo:hi, :]\<close> on a DatetimeIndex. On a monotonic index the slice runs from the
  first position not before \<open>lo\<close> to the last position not after \<open>hi\<close>. On an index that
  is not monotonic (after sorting: one that holds NaT) pandas 2 raises KeyError unless
  both bounds occur in the index, and then keeps the rows between the bounds.
\<close>

definition loc_slice ::
  "int \<Rightarrow> int \<Rightarrow> (int option \<times> 'a) list \<Rightarrow> error + (int option \<times> 'a) list" where
  "loc_slice lo hi xs =
     (if is_monotonic_increasing (map fst xs)
      then Inr (takeWhile (\<lambda>(t, r). not_after hi t) (dropWhile (\<lambda>(t, r). \<not> not_before lo t) xs))
      else if Some lo \<in> set (map fst xs) \<and> Some hi \<in> set (map fst xs)
      then Inr (filter (\<lambda>(t, r). not_before lo t \<and> not_after hi t) xs)
      else Inl (KeyError ''non-monotonic DatetimeIndex''))"

text \<open>
  The two labels of the slice, \<^verbatim>\<open>f"{date}T19:00:00"\<close> and \<^verbatim>\<open>f"{date}T20:00:00"\<close>.
  The argument \<open>date\<close> is modelled as the instant of its midnight. A string label has
  the resolution it is written in, here one second, and stands for that whole second: as
  the left bound of a slice for its first nanosecond, as the right bound for its last.
\<close>

definition second :: int where
  "second = 1000000000"

definition window_start :: "int \<Rightarrow> int" where
  "window_start d = d + 19 * 3600 * second"

definition window_end :: "int \<Rightarrow> int" where
  "window_end d = d + 20 * 3600 * second"

definition slice_start :: "int \<Rightarrow> int" where
  "slice_start d = window_start d"

definition slice_stop :: "int \<Rightarrow> int" where
  "slice_stop d = window_end d + (second - 1)"

definition filter_by_day :: "(string \<Rightarrow> parsed) \<Rightarrow> DataFrame \<Rightarrow> int \<Rightarrow> error + DataFrame" where
  "filter_by_day parse_time df d =
     (case getitem df ''lastSubmittedTime'' of
        Inl e \<Rightarrow> Inl e
      | Inr col \<Rightarrow>
          (case sequence (map (to_datetime parse_time) col) of
             Inl e \<Rightarrow> Inl e
           | Inr idx \<Rightarrow>
               (case loc_slice (slice_start d) (slice_stop d) (sort_index (zip idx (rows df))) of
                  Inl e \<Rightarrow> Inl e
                | Inr kept \<Rightarrow> Inr (df\<lparr>rows := map snd kept\<rparr>))))"

section \<open>The keyphrase: \<^verbatim>\<open>filter_by_passphrase\<close>\<close>

definition FUZZ_THRESHOLD :: nat where
  "FUZZ_THRESHOLD = 70"

definition ckey :: string where
  "ckey = ''What is the Concept of the Day?''"

text \<open>\<^verbatim>\<open>lambda x: x.strip().lower()\<close>: a cell that is not a string has no \<^verbatim>\<open>strip\<close>.\<close>

definition strip_lower :: "cell \<Rightarrow> error + cell" where
  "strip_lower x =
     (case x of Str s \<Rightarrow> Inr (Str (py_lower (py_strip s))) | Num q \<Rightarrow> Inl AttributeError
      | NaN \<Rightarrow> Inl AttributeError)"

text \<open>\<^verbatim>\<open>df[c] = values\<close> for the column at position \<open>i\<close>, a list of Python objects.\<close>

definition setitem :: "DataFrame \<Rightarrow> nat \<Rightarrow> cell list \<Rightarrow> DataFrame" where
  "setitem df i vals =
     df\<lparr>dtypes := (dtypes df)[i := Object],
        rows := map (\<lambda>(r, v). (map (iloc r) [0..<length (columns df)])[i := v])
                  (zip (rows df) vals)\<rparr>"

text \<open>
  \<^verbatim>\<open>filter_by_passphrase\<close>. \<open>ratio\<close> is \<^verbatim>\<open>fuzz.partial_token_set_ratio\<close>, a score
  from 0 to 100. Over a frame with rows, \<^verbatim>\<open>df.apply(..., axis=1)\<close> is a boolean for each
  row and \<^verbatim>\<open>df[...]\<close> keeps the rows marked True. Over a frame without rows it is an
  empty series that is not boolean, \<^verbatim>\<open>df[...]\<close> then selects columns, none of them, and
  the result is a frame without columns.
\<close>

definition filter_by_passphrase ::
  "(string \<Rightarrow> string \<Rightarrow> nat) \<Rightarrow> DataFrame \<Rightarrow> string \<Rightarrow> error + DataFrame" where
  "filter_by_passphrase ratio df passphrase =
     (case get_loc (columns df) ckey of
        None \<Rightarrow> Inl (KeyError ckey)
      | Some i \<Rightarrow>
          (case sequence (map (\<lambda>r. strip_lower (iloc r i)) (rows df)) of
             Inl e \<Rightarrow> Inl e
           | Inr vals \<Rightarrow>
               (let df1 = setitem df i vals
                in if rows df1 = [] then Inr \<lparr>columns = [], dtypes = [], rows = []\<rparr>
                   else Inr (df1\<lparr>rows :=
                          filter (\<lambda>x. case iloc x i of
                                        Str s \<Rightarrow> ratio s passphrase \<ge> FUZZ_THRESHOLD
                                      | Num q \<Rightarrow> False
                                      | NaN \<Rightarrow> False)
                            (rows df1)\<rparr>))))"

section \<open>Signals: \<^verbatim>\<open>convert_numeric_cols\<close>, \<^verbatim>\<open>identify_assistance_need\<close>, the report\<close>

text \<open>\<^verbatim>\<open>any(x in s for x in matches)\<close>.\<close>

definition any_in :: "string list \<Rightarrow> string \<Rightarrow> bool" where
  "any_in matches s = list_ex (\<lambda>x. py_in x s) matches"

definition dtype_at :: "DataFrame \<Rightarrow> nat \<Rightarrow> dtype" where
  "dtype_at df i = (if i < length (dtypes df) then dtypes df ! i else Object)"

text \<open>
  \<^verbatim>\<open>pd.to_numeric(..., errors="coerce")\<close> on one cell. Its reading of a string is the
  parameter \<open>parse_num\<close>; a string it cannot read becomes NaN.
\<close>

definition to_numeric :: "(string \<Rightarrow> float64 option) \<Rightarrow> cell \<Rightarrow> cell" where
  "to_numeric parse_num c =
     (case c of
        Str s \<Rightarrow> (case parse_num s of Some q \<Rightarrow> Num q | None \<Rightarrow> NaN)
      | Num q \<Rightarrow> Num q
      | NaN \<Rightarrow> NaN)"

text \<open>
  \<^verbatim>\<open>convert_numeric_cols\<close>. On a frame without columns
  \<^verbatim>\<open>df.columns.to_series().apply(...)\<close> is an empty series that is not boolean, and
  \<^verbatim>\<open>df.columns[...]\<close> raises IndexError. \<^verbatim>\<open>apply(..., axis=1)\<close> over a frame without
  rows returns the frame as it is, so the columns keep their dtype; otherwise every row
  comes back numeric and the columns assigned are of a number dtype.
\<close>

definition convert_numeric_cols ::
  "(string \<Rightarrow> float64 option) \<Rightarrow> DataFrame \<Rightarrow> error + DataFrame" where
  "convert_numeric_cols parse_num df =
     (let matches = [''hours'', ''Help'', ''Understanding'', ''Speed''];
          n = length (columns df);
          num_cols = (\<lambda>i. any_in matches (columns df ! i))
      in if columns df = [] then Inl IndexError
         else if rows df = [] then Inr df
         else Inr (df\<lparr>dtypes := map (\<lambda>i. if num_cols i then Number else dtype_at df i) [0..<n],
                      rows := map (\<lambda>r. map (\<lambda>i. if num_cols i then to_numeric parse_num (iloc r i)
                                                     else iloc r i) [0..<n])
                                (rows df)\<rparr>))"

text \<open>
  \<^verbatim>\<open>.lt(2)\<close> on one cell: minus infinity is below 2 and plus infinity is not; NaN is
  not below anything; a string cannot be compared.
\<close>

definition float_lt :: "float64 \<Rightarrow> rat \<Rightarrow> bool" where
  "float_lt x b = (case x of Finite q \<Rightarrow> q < b | PosInf \<Rightarrow> False | NegInf \<Rightarrow> True)"

definition lt2 :: "cell \<Rightarrow> error + bool" where
  "lt2 c = (case c of Num x \<Rightarrow> Inr (float_lt x 2) | NaN \<Rightarrow> Inr False | Str s \<Rightarrow> Inl TypeError)"

text \<open>
  \<^verbatim>\<open>identify_assistance_need\<close>. Its first statement is that of
  \<^verbatim>\<open>convert_numeric_cols\<close> and raises IndexError on a frame without columns.
\<close>

definition identify_assistance_need :: "DataFrame \<Rightarrow> error + DataFrame" where
  "identify_assistance_need df =
     (let matches = [''Help'', ''Understanding'', ''Speed''];
          num_cols = filter (\<lambda>i. any_in matches (columns df ! i)) [0..<length (columns df)]
      in if columns df = [] then Inl IndexError
         else
           (case sequence (map (\<lambda>r. sequence (map (\<lambda>i. lt2 (iloc r i)) num_cols)) (rows df)) of
              Inl e \<Rightarrow> Inl e
            | Inr below \<Rightarrow>
                Inr (df\<lparr>rows := map snd (filter (\<lambda>(bs, r). list_ex (\<lambda>b. b) bs) (zip below (rows df)))\<rparr>)))"

text \<open>
  \<^verbatim>\<open>select_dtypes("number").mean()\<close>: for each column of a number dtype, the mean of
  its values that are not NaN, and NaN (None here) when it has none. The mean is the sum
  of those values divided by their number, in float64: \<open>np_sum\<close> is the library's sum
  of float64 values (NaN, None here, when both infinities are among them) and \<open>np_div\<close>
  its division of a float64 by a positive count. (pandas puts 0 in the place of each NaN
  before it sums.)
\<close>

fun numbers :: "cell list \<Rightarrow> float64 list" where
  "numbers [] = []"
| "numbers (Num x # cs) = x # numbers cs"
| "numbers (c # cs) = numbers cs"

definition mean ::
  "(float64 list \<Rightarrow> float64 option) \<Rightarrow> (float64 \<Rightarrow> nat \<Rightarrow> float64) \<Rightarrow> cell list \<Rightarrow> float64 option" where
  "mean np_sum np_div vals =
     (let xs = numbers vals
      in if xs = [] then None
         else (case np_sum xs of None \<Rightarrow> None | Some s \<Rightarrow> Some (np_div s (length xs))))"

definition report ::
  "(float64 list \<Rightarrow> float64 option) \<Rightarrow> (float64 \<Rightarrow> nat \<Rightarrow> float64) \<Rightarrow> DataFrame
     \<Rightarrow> (string \<times> float64 option) list" where
  "report np_sum np_div df =
     map (\<lambda>i. (columns df ! i, mean np_sum np_div (map (\<lambda>r. iloc r i) (rows df))))
       (filter (\<lambda>i. dtype_at df i = Number) [0..<length (columns df)])"

section \<open>The run: \<^verbatim>\<open>main\<close>\<close>

record args =
  ass_id :: int
  date :: int
  keyphrase :: "string option"

text \<open>
  What the run takes from outside: the two providers and the library functions that
  are parameters above. \<^verbatim>\<open>--keyphrase\<close> left out is None, which has no \<^verbatim>\<open>strip\<close>.
\<close>

record env =
  course_name :: string
  course_users :: "profile list"
  gradebook_fails :: "profile \<Rightarrow> bool"
  form_responses :: "(string \<times> string) list list"
  form_q_titles :: "string \<rightharpoonup> string"
  pd_parse_time :: "string \<Rightarrow> parsed"
  pd_parse_num :: "string \<Rightarrow> float64 option"
  np_sum :: "float64 list \<Rightarrow> float64 option"
  np_div :: "float64 \<Rightarrow> nat \<Rightarrow> float64"
  fuzz_ratio :: "string \<Rightarrow> string \<Rightarrow> nat"

definition main :: "env \<Rightarrow> args \<Rightarrow> world \<Rightarrow> world \<times> (error + unit)" where
  "main ev a w =
     (case keyphrase a of
        None \<Rightarrow> (w, Inl AttributeError)
      | Some k \<Rightarrow>
     (let kp = py_lower (py_strip k);
          w1 = w\<lparr>stdout := stdout w @ [Line (''Connecting to '' @ course_name ev)]\<rparr>
      in case get_attendance (form_responses ev) (form_q_titles ev) of
           Inl e \<Rightarrow> (w1, Inl e)
         | Inr df1 \<Rightarrow>
      (case filter_by_day (pd_parse_time ev) df1 (date a) of
           Inl e \<Rightarrow> (w1, Inl e)
         | Inr df2 \<Rightarrow>
      (case filter_by_passphrase (fuzz_ratio ev) df2 kp of
           Inl e \<Rightarrow> (w1, Inl e)
         | Inr df3 \<Rightarrow>
      (case convert_numeric_cols (pd_parse_num ev) df3 of
           Inl e \<Rightarrow> (w1, Inl e)
         | Inr attend_df \<Rightarrow>
      (let w2 = w1\<lparr>report_csv := Some (report (np_sum ev) (np_div ev) attend_df)\<rparr>
       in case identify_assistance_need attend_df of
            Inl e \<Rightarrow> (w2, Inl e)
          | Inr support_df \<Rightarrow>
       (let w3 = w2\<lparr>stdout := stdout w2 @ [Line ''Students in need of support: '', Line []]\<rparr>
        in case getitem support_df ''respondentEmail'' of
             Inl e \<Rightarrow> (w3, Inl e)
           | Inr emails \<Rightarrow>
        (let w4 = w3\<lparr>stdout := stdout w3 @ [Series emails]\<rparr>
         in case canvas_upload (gradebook_fails ev) (course_users ev) attend_df w4 of
              (w5, Inl e) \<Rightarrow> (w5, Inl e)
            | (w5, Inr u) \<Rightarrow> (w5\<lparr>out_csv := Some attend_df\<rparr>, Inr ())))))))))"

section \<open>Example data\<close>

text \<open>Concrete inputs, for evaluating the functions above.\<close>

definition ex_alice :: profile where
  "ex_alice = \<lparr>uid = 11, name = ''Alice'', login_id = ''a@x.edu''\<rparr>"

definition ex_bob :: profile where
  "ex_bob = \<lparr>uid = 12, name = ''Bob'', login_id = ''b@x.edu''\<rparr>"

definition ex_carol :: profile where
  "ex_carol = \<lparr>uid = 13, name = ''Carol'', login_id = ''c@x.edu''\<rparr>"

definition ex_dana :: profile where
  "ex_dana = \<lparr>uid = 14, name = ''Dana'', login_id = ''A@x.edu''\<rparr>"

definition ex_world :: world where
  "ex_world = \<lparr>stdout = [], requests = [], posted = [], report_csv = None, out_csv = None\<rparr>"

definition ex_attended :: DataFrame where
  "ex_attended =
     \<lparr>columns = [''respondentEmail''], dtypes = [Object],
      rows = [[Str ''a@x.edu''], [Str ''c@x.edu'']]\<rparr>"

text \<open>
  A parser for the timestamps of the examples (15 January 2024, whose midnight is
  \<open>ex_day\<close>), and frames that hold nothing but a timestamp column.
\<close>

definition ex_parse_time :: "string \<Rightarrow> parsed" where
  "ex_parse_time s =
     (case map_of
        [(''2024-01-15T18:59:59.999999999Z'', 1705345199999999999),
         (''2024-01-15T19:00:00Z'', 1705345200000000000),
         (''2024-01-15T19:10:00Z'', 1705345800000000000),
         (''2024-01-15T19:30:00Z'', 1705347000000000000),
         (''2024-01-15T20:00:00Z'', 1705348800000000000),
         (''2024-01-15T20:00:00.500Z'', 1705348800500000000),
         (''2024-01-15T20:00:01Z'', 1705348801000000000)] s of
        Some t \<Rightarrow> Instant t
      | None \<Rightarrow> if s = [] then NaT else Rejected)"

definition ex_day :: int where
  "ex_day = 1705276800000000000"

definition ex_times :: "string list \<Rightarrow> DataFrame" where
  "ex_times ss = \<lparr>columns = [''lastSubmittedTime''], dtypes = [Object], rows = map (\<lambda>s. [Str s]) ss\<rparr>"

text \<open>
  A response as the provider returns it, flattened: questions \<^verbatim>\<open>1a2b\<close> and
  \<^verbatim>\<open>9f00\<close> are in the form, question \<^verbatim>\<open>dead\<close> no longer is.
\<close>

definition ex_response :: "string \<Rightarrow> string \<Rightarrow> string \<Rightarrow> string \<Rightarrow> (string \<times> string) list" where
  "ex_response email time answer rating =
     [(''responseId'', ''r-'' @ email),
      (''createTime'', time),
      (''lastSubmittedTime'', time),
      (''respondentEmail'', email),
      (''answers_1a2b_questionId'', ''1a2b''),
      (''answers_1a2b_textAnswers_answers_0_value'', answer),
      (''answers_dead_questionId'', ''dead''),
      (''answers_dead_textAnswers_answers_0_value'', ''old''),
      (''answers_9f00_questionId'', ''9f00''),
      (''answers_9f00_textAnswers_answers_0_value'', rating)]"

definition ex_q_titles :: "string \<rightharpoonup> string" where
  "ex_q_titles = map_of [(''1a2b'', ''What is the Concept of the Day?''),
                         (''9f00'', ''Understanding of the topic'')]"

text \<open>A stand-in for the similarity score, and frames with an answer column.\<close>

definition ex_ratio :: "string \<Rightarrow> string \<Rightarrow> nat" where
  "ex_ratio s p = (if s = p then 100 else if s = ''graph'' \<and> p = ''graphs'' then 85 else 20)"

definition ex_answers :: "string list \<Rightarrow> DataFrame" where
  "ex_answers ss =
     \<lparr>columns = [''respondentEmail'', ckey], dtypes = [Object, Object],
      rows = map (\<lambda>s. [Str ''a@x.edu'', Str s]) ss\<rparr>"

text \<open>A reader of numbers for the examples, and a frame with three signal columns.\<close>

definition ex_parse_num :: "string \<Rightarrow> float64 option" where
  "ex_parse_num =
     map_of [(''1'', Finite 1), (''2'', Finite 2), (''3'', Finite 3), (''4'', Finite 4),
             (''1.5'', Finite (3 / 2)), (''-inf'', NegInf), (''inf'', PosInf)]"

text \<open>
  Sum and division for the examples: exact on finite values, which is what float64 gives
  for the small values used here.
\<close>

fun ex_add :: "float64 \<Rightarrow> float64 \<Rightarrow> float64 option" where
  "ex_add (Finite p) (Finite q) = Some (Finite (p + q))"
| "ex_add PosInf NegInf = None"
| "ex_add NegInf PosInf = None"
| "ex_add (Finite p) y = Some y"
| "ex_add x y = Some x"

fun ex_sum :: "float64 list \<Rightarrow> float64 option" where
  "ex_sum [] = Some (Finite 0)"
| "ex_sum (x # xs) = (case ex_sum xs of None \<Rightarrow> None | Some s \<Rightarrow> ex_add x s)"

definition ex_div :: "float64 \<Rightarrow> nat \<Rightarrow> float64" where
  "ex_div s n = (case s of Finite q \<Rightarrow> Finite (q / of_nat n) | PosInf \<Rightarrow> PosInf | NegInf \<Rightarrow> NegInf)"

definition ex_signals :: DataFrame where
  "ex_signals =
     \<lparr>columns = [''respondentEmail'', ''How many hours did you spend?'', ''Understanding of the topic'',
                 ''Speed of the lecture''],
      dtypes = [Object, Object, Object, Object],
      rows = [[Str ''a@x.edu'', Str ''2'', Str ''1'', Str ''abc''],
              [Str ''b@x.edu'', Str ''n/a'', NaN, NaN],
              [Str ''c@x.edu'', Str ''4'', Str ''3'', Str ''2''],
              [Str ''d@x.edu'', Str ''3'', Str ''-inf'', Str ''inf'']]\<rparr>"

text \<open>
  A whole run: Alice answers inside the window, Carol one second after its end, Bob inside
  the window with another phrase. \<open>ex_normalized\<close> is the frame after the schema
  normalizer, \<open>ex_in_window\<close> the frame after the time window.
\<close>

definition ex_responses :: "(string \<times> string) list list" where
  "ex_responses =
     [ex_response ''a@x.edu'' ''2024-01-15T19:30:00Z'' ''  Graph '' ''1'',
      ex_response ''c@x.edu'' ''2024-01-15T20:00:01Z'' ''graphs'' ''3'',
      ex_response ''b@x.edu'' ''2024-01-15T19:10:00Z'' ''Trees'' ''2'']"

definition ex_env :: env where
  "ex_env = \<lparr>course_name = ''ENGR 103'', course_users = [ex_alice, ex_bob],
             gradebook_fails = (\<lambda>u. False), form_responses = ex_responses,
             form_q_titles = ex_q_titles, pd_parse_time = ex_parse_time,
             pd_parse_num = ex_parse_num, np_sum = ex_sum, np_div = ex_div,
             fuzz_ratio = ex_ratio\<rparr>"

definition ex_args :: args where
  "ex_args = \<lparr>ass_id = 1, date = ex_day, keyphrase = Some '' Graphs''\<rparr>"

text \<open>
  Other surveys for the same run, each response given by its email, timestamp, answer and
  rating, and the frame the schema normalizer makes of such a survey.
\<close>

definition ex_survey :: "(string \<times> string \<times> string \<times> string) list \<Rightarrow> env" where
  "ex_survey xs =
     ex_env\<lparr>form_responses := map (\<lambda>(email, time, answer, rating). ex_response email time answer rating) xs\<rparr>"

definition ex_table :: "(string \<times> string \<times> string \<times> string) list \<Rightarrow> DataFrame" where
  "ex_table xs =
     \<lparr>columns = [''responseId'', ''createTime'', ''lastSubmittedTime'', ''respondentEmail'',
                 ''What is the Concept of the Day?'', ''Understanding of the topic''],
      dtypes = [Object, Object, Object, Object, Object, Object],
      rows = map (\<lambda>(email, time, answer, rating).
                    [Str (''r-'' @ email), Str time, Str time, Str email, Str answer, Str rating]) xs\<rparr>"

definition ex_normalized :: DataFrame where
  "ex_normalized =
     \<lparr>columns = [''responseId'', ''createTime'', ''lastSubmittedTime'', ''respondentEmail'',
                 ''What is the Concept of the Day?'', ''Understanding of the topic''],
      dtypes = [Object, Object, Object, Object, Object, Object],
      rows = [[Str ''r-a@x.edu'', Str ''2024-01-15T19:30:00Z'', Str ''2024-01-15T19:30:00Z'',
               Str ''a@x.edu'', Str ''  Graph '', Str ''1''],
              [Str ''r-c@x.edu'', Str ''2024-01-15T20:00:01Z'', Str ''2024-01-15T20:00:01Z'',
               Str ''c@x.edu'', Str ''graphs'', Str ''3''],
              [Str ''r-b@x.edu'', Str ''2024-01-15T19:10:00Z'', Str ''2024-01-15T19:10:00Z'',
               Str ''b@x.edu'', Str ''Trees'', Str ''2'']]\<rparr>"

definition ex_in_window :: DataFrame where
  "ex_in_window =
     \<lparr>columns = [''responseId'', ''createTime'', ''lastSubmittedTime'', ''respondentEmail'',
                 ''What is the Concept of the Day?'', ''Understanding of the topic''],
      dtypes = [Object, Object, Object, Object, Object, Object],
      rows = [[Str ''r-b@x.edu'', Str ''2024-01-15T19:10:00Z'', Str ''2024-01-15T19:10:00Z'',
               Str ''b@x.edu'', Str ''Trees'', Str ''2''],
              [Str ''r-a@x.edu'', Str ''2024-01-15T19:30:00Z'', Str ''2024-01-15T19:30:00Z'',
               Str ''a@x.edu'', Str ''  Graph '', Str ''1'']]\<rparr>"

section \<open>Roster reconciliation and grade submission\<close>

lemma apply_rows_set_score_ok:
  "\<forall>x \<in> set xs. \<not> fails x \<Longrightarrow>
   apply_rows (\<lambda>x. set_score fails x s) xs w =
     (w\<lparr>stdout := stdout w @
           map (\<lambda>x. Line ((if s = 0 then ''Marking absent: '' else ''Marking present: '') @ name x)) xs,
         requests := requests w @ map uid xs,
         posted := posted w @ map (\<lambda>x. (uid x, s)) xs\<rparr>, Inr ())"
proof (induction xs arbitrary: w)
  case Nil
  show ?case by simp
next
  case (Cons x xs)
  then show ?case by (simp add: set_score_def Let_def)
qed

lemma apply_rows_set_score_fail:
  "\<forall>x \<in> set pre. \<not> fails x \<Longrightarrow> fails u \<Longrightarrow>
   apply_rows (\<lambda>x. set_score fails x s) (pre @ u # post) w =
     (w\<lparr>stdout := stdout w @
           map (\<lambda>x. Line ((if s = 0 then ''Marking absent: '' else ''Marking present: '') @ name x))
             (pre @ [u]),
         requests := requests w @ map uid (pre @ [u]),
         posted := posted w @ map (\<lambda>x. (uid x, s)) pre\<rparr>, Inl ProviderError)"
proof (induction pre arbitrary: w)
  case Nil
  then show ?case by (simp add: set_score_def Let_def)
next
  case (Cons x xs)
  then show ?case by (simp add: set_score_def Let_def)
qed

lemma decisions_of_absent:
  "\<forall>x \<in> set xs. \<not> isin (login_id x) emails \<Longrightarrow>
   map (\<lambda>x. (uid x, 0)) xs = map (decision emails) xs"
  by (induction xs) (simp_all add: decision_def)

lemma decisions_of_present:
  "\<forall>x \<in> set xs. isin (login_id x) emails \<Longrightarrow>
   map (\<lambda>x. (uid x, 1)) xs = map (decision emails) xs"
  by (induction xs) (simp_all add: decision_def)

text \<open>
  C1. When the provider accepts every submission and the validated records have their
  \<^verbatim>\<open>respondentEmail\<close> column, \<^verbatim>\<open>canvas_upload\<close> posts one decision for every roster
  entry and nothing else: the absent entries with score 0, then the present entries with
  score 1, where an entry is present when its \<^verbatim>\<open>login_id\<close> is equal, as a string, to
  one of the \<^verbatim>\<open>respondentEmail\<close> values. As a multiset the decisions posted are those of
  the roster, their number is the roster's size whatever the records are, and for a roster
  that is not empty the upload returns normally.
\<close>

theorem canvas_upload_decisions:
  assumes ok: "\<forall>u \<in> set users. \<not> fails u"
    and col: "getitem df ''respondentEmail'' = Inr emails"
  shows "posted (fst (canvas_upload fails users df w)) =
           posted w @ map (decision emails) (filter (\<lambda>u. \<not> isin (login_id u) emails) users)
                    @ map (decision emails) (filter (\<lambda>u. isin (login_id u) emails) users)
       \<and> mset (drop (length (posted w)) (posted (fst (canvas_upload fails users df w)))) =
           mset (map (decision emails) users)
       \<and> length (posted (fst (canvas_upload fails users df w))) = length (posted w) + length users
       \<and> (users \<noteq> [] \<longrightarrow> snd (canvas_upload fails users df w) = Inr ())"
proof -
  let ?A = "filter (\<lambda>u. \<not> isin (login_id u) emails) users"
  let ?P = "filter (\<lambda>u. isin (login_id u) emails) users"
  have okA: "\<forall>x \<in> set ?A. \<not> fails x" and okP: "\<forall>x \<in> set ?P. \<not> fails x"
    using ok by auto
  have ab: "\<forall>x \<in> set ?A. \<not> isin (login_id x) emails" by simp
  have pr: "\<forall>x \<in> set ?P. isin (login_id x) emails" by simp
  have posted_eq: "posted (fst (canvas_upload fails users df w)) =
      posted w @ map (decision emails) ?A @ map (decision emails) ?P"
  proof (cases "users = []")
    case True
    then show ?thesis by (simp add: canvas_upload_def Let_def)
  next
    case False
    then show ?thesis
      using decisions_of_absent [OF ab] decisions_of_present [OF pr]
      by (simp add: canvas_upload_def Let_def col apply_rows_set_score_ok [OF okA]
          apply_rows_set_score_ok [OF okP])
  qed
  have ms: "mset (map (decision emails) ?A @ map (decision emails) ?P) = mset (map (decision emails) users)"
    by (induction users) simp_all
  have len: "length ?A + length ?P = length users"
    by (induction users) simp_all
  have res: "users \<noteq> [] \<longrightarrow> snd (canvas_upload fails users df w) = Inr ()"
    by (simp add: canvas_upload_def Let_def col apply_rows_set_score_ok [OF okA]
          apply_rows_set_score_ok [OF okP])
  show ?thesis
    using posted_eq ms len res by simp
qed

theorem canvas_upload_decisions_witness:
  "posted (fst (canvas_upload (\<lambda>u. False) [ex_alice, ex_bob, ex_dana] ex_attended ex_world)) =
     [(12, 0), (14, 0), (11, 1)]
   \<and> snd (canvas_upload (\<lambda>u. False) [ex_alice, ex_bob, ex_dana] ex_attended ex_world) = Inr ()"
proof -
  have col: "getitem ex_attended ''respondentEmail'' = Inr [Str ''a@x.edu'', Str ''c@x.edu'']"
    by (simp add: getitem_def ex_attended_def iloc_def)
  have ok: "\<forall>u \<in> set [ex_alice, ex_bob, ex_dana]. \<not> (\<lambda>u. False) u" by simp
  show ?thesis
    using canvas_upload_decisions [OF ok col, of ex_world]
    by (simp add: decision_def isin_def ex_alice_def ex_bob_def ex_dana_def ex_world_def)
qed

text \<open>
  C8, as stated, fails: with two absent students of whom the provider rejects the first,
  \<^verbatim>\<open>canvas_upload\<close> ends with the provider's error after the first request; the
  gradebook is never asked about the second student, and nothing is posted.
\<close>

theorem canvas_upload_counterexample_isolated:
  "snd (canvas_upload (\<lambda>u. login_id u = ''a@x.edu'') [ex_alice, ex_bob]
          \<lparr>columns = [''respondentEmail''], dtypes = [Object], rows = []\<rparr> ex_world) = Inl ProviderError
   \<and> requests (fst (canvas_upload (\<lambda>u. login_id u = ''a@x.edu'') [ex_alice, ex_bob]
          \<lparr>columns = [''respondentEmail''], dtypes = [Object], rows = []\<rparr> ex_world)) = [11]
   \<and> posted (fst (canvas_upload (\<lambda>u. login_id u = ''a@x.edu'') [ex_alice, ex_bob]
          \<lparr>columns = [''respondentEmail''], dtypes = [Object], rows = []\<rparr> ex_world)) = []"
  by (simp add: canvas_upload_def getitem_def isin_def set_score_def Let_def
      ex_alice_def ex_bob_def ex_world_def)

text \<open>
  C8, amended. No failure is isolated. The entries are processed absent first, then
  present, each group in roster order. When the provider rejects an entry and accepted
  all entries before it, the upload ends with the provider's error: the decisions of the
  entries before it are posted, and the gradebook was asked about those entries and the
  rejected one only, about none after it.
\<close>

theorem canvas_upload_failure_aborts:
  assumes col: "getitem df ''respondentEmail'' = Inr emails"
    and order: "filter (\<lambda>u. \<not> isin (login_id u) emails) users @
                filter (\<lambda>u. isin (login_id u) emails) users = pre @ u # post"
    and ok: "\<forall>x \<in> set pre. \<not> fails x"
    and bad: "fails u"
  shows "snd (canvas_upload fails users df w) = Inl ProviderError
       \<and> posted (fst (canvas_upload fails users df w)) = posted w @ map (decision emails) pre
       \<and> requests (fst (canvas_upload fails users df w)) = requests w @ map uid (pre @ [u])"
proof -
  let ?A = "filter (\<lambda>u. \<not> isin (login_id u) emails) users"
  let ?P = "filter (\<lambda>u. isin (login_id u) emails) users"
  have ne: "users \<noteq> []" using order by auto
  have split: "(\<exists>rest. ?A = pre @ u # rest) \<or> (\<exists>us. pre = ?A @ us \<and> ?P = us @ u # post)"
  proof -
    from order obtain us where
      "(?A = pre @ us \<and> us @ ?P = u # post) \<or> (?A @ us = pre \<and> ?P = us @ u # post)"
      unfolding append_eq_append_conv2 by blast
    then show ?thesis
    proof
      assume h: "?A = pre @ us \<and> us @ ?P = u # post"
      show ?thesis
      proof (cases us)
        case Nil
        with h have "pre = ?A @ [] \<and> ?P = [] @ u # post" by simp
        then show ?thesis by blast
      next
        case (Cons v vs)
        with h have "?A = pre @ u # vs" by simp
        then show ?thesis by blast
      qed
    next
      assume "?A @ us = pre \<and> ?P = us @ u # post"
      then have "pre = ?A @ us \<and> ?P = us @ u # post" by simp
      then show ?thesis by blast
    qed
  qed
  then consider
      (absent) rest where "?A = pre @ u # rest"
    | (present) us where "pre = ?A @ us" "?P = us @ u # post"
    by blast
  then show ?thesis
  proof cases
    case absent
    have "set pre \<subseteq> set ?A" using absent by auto
    then have ab: "\<forall>x \<in> set pre. \<not> isin (login_id x) emails" by auto
    show ?thesis
      using decisions_of_absent [OF ab]
      by (simp add: canvas_upload_def Let_def col ne absent
          apply_rows_set_score_fail [OF ok bad])
  next
    case present
    have okA: "\<forall>x \<in> set ?A. \<not> fails x" using ok present(1) by auto
    have okus: "\<forall>x \<in> set us. \<not> fails x" using ok present(1) by auto
    have "set us \<subseteq> set ?P" using present(2) by auto
    then have pr: "\<forall>x \<in> set us. isin (login_id x) emails" by auto
    have ab: "\<forall>x \<in> set ?A. \<not> isin (login_id x) emails" by simp
    show ?thesis
      using decisions_of_absent [OF ab] decisions_of_present [OF pr]
      by (simp add: canvas_upload_def Let_def col ne present(2)
          apply_rows_set_score_ok [OF okA] apply_rows_set_score_fail [OF okus bad] present(1))
  qed
qed

theorem canvas_upload_failure_aborts_witness:
  "snd (canvas_upload (\<lambda>u. login_id u = ''a@x.edu'') [ex_bob, ex_alice, ex_carol] ex_attended ex_world)
     = Inl ProviderError
   \<and> posted (fst (canvas_upload (\<lambda>u. login_id u = ''a@x.edu'') [ex_bob, ex_alice, ex_carol]
        ex_attended ex_world)) = [(12, 0)]
   \<and> requests (fst (canvas_upload (\<lambda>u. login_id u = ''a@x.edu'') [ex_bob, ex_alice, ex_carol]
        ex_attended ex_world)) = [12, 11]"
proof -
  have col: "getitem ex_attended ''respondentEmail'' = Inr [Str ''a@x.edu'', Str ''c@x.edu'']"
    by (simp add: getitem_def ex_attended_def iloc_def)
  have order: "filter (\<lambda>u. \<not> isin (login_id u) [Str ''a@x.edu'', Str ''c@x.edu'']) [ex_bob, ex_alice, ex_carol] @
               filter (\<lambda>u. isin (login_id u) [Str ''a@x.edu'', Str ''c@x.edu'']) [ex_bob, ex_alice, ex_carol]
               = [ex_bob] @ ex_alice # [ex_carol]"
    by (simp add: isin_def ex_alice_def ex_bob_def ex_carol_def)
  have ok: "\<forall>x \<in> set [ex_bob]. \<not> (\<lambda>u. login_id u = ''a@x.edu'') x"
    by (simp add: ex_bob_def)
  have bad: "(\<lambda>u. login_id u = ''a@x.edu'') ex_alice"
    by (simp add: ex_alice_def)
  show ?thesis
    using canvas_upload_failure_aborts [OF col order ok bad, of ex_world]
    by (simp add: decision_def isin_def ex_alice_def ex_bob_def ex_world_def)
qed

section \<open>The time window\<close>

lemma sequence_map_Inr: "sequence (map (\<lambda>x. Inr (f x)) xs) = Inr (map f xs)"
  by (induction xs) simp_all

lemma sequence_Inl_iff:
  "(\<exists>e. sequence xs = Inl e) \<longleftrightarrow> (\<exists>e. Inl e \<in> set xs)"
proof (induction xs)
  case Nil
  show ?case by simp
next
  case (Cons y ys)
  show ?case
  proof (cases y)
    case (Inl e')
    then show ?thesis by auto
  next
    case (Inr v)
    have "(\<exists>e. sequence (y # ys) = Inl e) \<longleftrightarrow> (\<exists>e. sequence ys = Inl e)"
      unfolding Inr by (cases "sequence ys") simp_all
    also have "\<dots> \<longleftrightarrow> (\<exists>e. Inl e \<in> set ys)" by (rule Cons.IH)
    also have "\<dots> \<longleftrightarrow> (\<exists>e. Inl e \<in> set (y # ys))" unfolding Inr by auto
    finally show ?thesis .
  qed
qed

lemma sequence_Inl_mem: "sequence xs = Inl e \<Longrightarrow> Inl e \<in> set xs"
proof (induction xs)
  case Nil
  then show ?case by simp
next
  case (Cons y ys)
  show ?case
  proof (cases y)
    case (Inl e')
    with Cons.prems show ?thesis by simp
  next
    case (Inr v)
    with Cons.prems have "sequence ys = Inl e" by (cases "sequence ys") simp_all
    then have "Inl e \<in> set ys" by (rule Cons.IH)
    then show ?thesis by simp
  qed
qed

lemma stamped_zip_Some: "stamped (zip (map Some ts) rs) = zip ts rs"
  by (induction ts arbitrary: rs) (simp, case_tac rs, simp_all)

lemma filter_None_zip_Some: "filter (\<lambda>(t, r). t = None) (zip (map Some ts) rs) = []"
  by (induction ts arbitrary: rs) (simp, case_tac rs, simp_all)

lemma sort_index_parsed:
  "sort_index (zip (map Some ts) rs) = map (\<lambda>(t, r). (Some t, r)) (sort_key fst (zip ts rs))"
  by (simp add: sort_index_def stamped_zip_Some filter_None_zip_Some)

lemma monotonic_sorted:
  "sorted (map fst ys) \<Longrightarrow> is_monotonic_increasing (map fst (map (\<lambda>(t, r). (Some t, r)) ys))"
proof -
  assume s: "sorted (map fst ys)"
  have m: "map fst (map (\<lambda>(t, r). (Some t, r)) ys) = map Some (map fst ys)"
    by (induction ys) auto
  have "map the (map Some (map fst ys)) = map fst ys" by (simp add: comp_def)
  with s show ?thesis unfolding is_monotonic_increasing_def m by (auto simp: comp_def)
qed

lemma takeWhile_sorted:
  "sorted (map fst ys) \<Longrightarrow>
   takeWhile (\<lambda>(t, r). t \<le> hi) ys = filter (\<lambda>(t, r). t \<le> (hi::int)) ys"
proof (induction ys)
  case Nil
  show ?case by simp
next
  case (Cons y ys)
  obtain t r where y: "y = (t, r)" by (cases y)
  show ?case
  proof (cases "t \<le> hi")
    case True
    with Cons y show ?thesis by simp
  next
    case False
    with Cons.prems y have "\<forall>z \<in> set ys. \<not> fst z \<le> hi" by auto
    then have "filter (\<lambda>(t, r). t \<le> hi) ys = []" by (auto simp: filter_empty_conv)
    with False y show ?thesis by simp
  qed
qed

lemma slice_sorted:
  "sorted (map fst ys) \<Longrightarrow>
   takeWhile (\<lambda>(t, r). t \<le> hi) (dropWhile (\<lambda>(t, r). \<not> lo \<le> t) ys) =
   filter (\<lambda>(t, r). lo \<le> t \<and> t \<le> (hi::int)) ys"
proof (induction ys)
  case Nil
  show ?case by simp
next
  case (Cons y ys)
  obtain t r where y: "y = (t, r)" by (cases y)
  show ?case
  proof (cases "lo \<le> t")
    case False
    with Cons y show ?thesis by simp
  next
    case True
    with Cons.prems y have "\<forall>z \<in> set (y # ys). lo \<le> fst z" by auto
    then have "filter (\<lambda>(t, r). lo \<le> t \<and> t \<le> hi) (y # ys) = filter (\<lambda>(t, r). t \<le> hi) (y # ys)"
      by (intro filter_cong) auto
    moreover have "dropWhile (\<lambda>(t, r). \<not> lo \<le> t) (y # ys) = y # ys"
      using True y by simp
    ultimately show ?thesis using takeWhile_sorted [OF Cons.prems] by simp
  qed
qed

lemma dropWhile_Some:
  "dropWhile (\<lambda>(t, r). \<not> not_before lo t) (map (\<lambda>(t, r). (Some t, r)) ys) =
   map (\<lambda>(t, r). (Some t, r)) (dropWhile (\<lambda>(t, r). \<not> lo \<le> t) ys)"
  by (induction ys) (auto simp: not_before_def)

lemma takeWhile_Some:
  "takeWhile (\<lambda>(t, r). not_after hi t) (map (\<lambda>(t, r). (Some t, r)) ys) =
   map (\<lambda>(t, r). (Some t, r)) (takeWhile (\<lambda>(t, r). t \<le> hi) ys)"
  by (induction ys) (auto simp: not_after_def)

lemma loc_slice_sorted:
  assumes "sorted (map fst ys)"
  shows "loc_slice lo hi (map (\<lambda>(t, r). (Some t, r)) ys) =
         Inr (map (\<lambda>(t, r). (Some t, r)) (filter (\<lambda>(t, r). lo \<le> t \<and> t \<le> hi) ys))"
proof -
  have "loc_slice lo hi (map (\<lambda>(t, r). (Some t, r)) ys) =
        Inr (takeWhile (\<lambda>(t, r). not_after hi t)
              (dropWhile (\<lambda>(t, r). \<not> not_before lo t) (map (\<lambda>(t, r). (Some t, r)) ys)))"
    unfolding loc_slice_def using monotonic_sorted [OF assms] by (simp only: if_True)
  also have "\<dots> = Inr (map (\<lambda>(t, r). (Some t, r))
        (takeWhile (\<lambda>(t, r). t \<le> hi) (dropWhile (\<lambda>(t, r). \<not> lo \<le> t) ys)))"
    by (simp only: dropWhile_Some takeWhile_Some)
  also have "\<dots> = Inr (map (\<lambda>(t, r). (Some t, r)) (filter (\<lambda>(t, r). lo \<le> t \<and> t \<le> hi) ys))"
    by (simp only: slice_sorted [OF assms])
  finally show ?thesis .
qed

lemma map_snd_Some: "map snd (map (\<lambda>(t, r). (Some t, r)) ys) = map snd ys"
  by (induction ys) auto

lemma filter_by_day_parsed:
  assumes col: "getitem df ''lastSubmittedTime'' = Inr col"
    and parsed: "map (to_datetime parse_time) col = map (\<lambda>t. Inr (Some t)) ts"
  shows "filter_by_day parse_time df d =
         Inr (df\<lparr>rows := map snd (filter (\<lambda>(t, r). slice_start d \<le> t \<and> t \<le> slice_stop d)
                                   (sort_key fst (zip ts (rows df))))\<rparr>)"
proof -
  have srt: "sorted (map fst (sort_key fst (zip ts (rows df))))"
    by simp
  have sq: "sequence (map (to_datetime parse_time) col) = Inr (map Some ts)"
    unfolding parsed by (rule sequence_map_Inr)
  show ?thesis
    by (simp add: filter_by_day_def col sq sort_index_parsed loc_slice_sorted [OF srt] map_snd_Some)
qed







text \<open>
  C2, as stated, fails: a record submitted half a second after 20:00:00 lies after the end
  of the window and is kept.
\<close>

theorem filter_by_day_counterexample_window:
  "ex_parse_time ''2024-01-15T20:00:00.500Z'' = Instant 1705348800500000000
   \<and> window_end ex_day < 1705348800500000000
   \<and> filter_by_day ex_parse_time (ex_times [''2024-01-15T20:00:00.500Z'']) ex_day =
       Inr (ex_times [''2024-01-15T20:00:00.500Z''])"
  by (simp add: filter_by_day_def getitem_def ex_times_def iloc_def ex_parse_time_def to_datetime_def
      sort_index_def loc_slice_def is_monotonic_increasing_def not_before_def not_after_def
      slice_start_def slice_stop_def window_start_def window_end_def second_def ex_day_def)

text \<open>
  C2, amended. The window is written into the code as the labels 19:00:00 and 20:00:00 of
  the date, in the zone of the provider's timestamps; the code converts no local time.
  When every timestamp of the column parses, the filter returns the records whose
  timestamp \<open>t\<close> satisfies \<open>window_start d \<le> t \<le> window_end d + (second - 1)\<close>, each as
  often as it occurs, and no other: both labels are included, and so is the whole of the
  second that the end label names.
\<close>

theorem filter_by_day_window:
  assumes col: "getitem df ''lastSubmittedTime'' = Inr col"
    and parsed: "map (to_datetime parse_time) col = map (\<lambda>t. Inr (Some t)) ts"
  shows "\<exists>out. filter_by_day parse_time df d = Inr out \<and> columns out = columns df \<and>
           mset (rows out) =
           mset (map snd (filter (\<lambda>(t, r). window_start d \<le> t \<and> t \<le> window_end d + (second - 1))
                            (zip ts (rows df))))"
proof -
  let ?W = "\<lambda>(t, r :: cell list). slice_start d \<le> t \<and> t \<le> slice_stop d"
  have "mset (filter ?W (sort_key fst (zip ts (rows df)))) = mset (filter ?W (zip ts (rows df)))"
    by simp
  then have "mset (map snd (filter ?W (sort_key fst (zip ts (rows df))))) =
             mset (map snd (filter ?W (zip ts (rows df))))"
    by (simp only: mset_map)
  then show ?thesis
    unfolding filter_by_day_parsed [OF col parsed] slice_start_def slice_stop_def
    by simp
qed

theorem filter_by_day_window_witness:
  "\<exists>out. filter_by_day ex_parse_time
            (ex_times [''2024-01-15T20:00:01Z'', ''2024-01-15T20:00:00Z'', ''2024-01-15T19:30:00Z'',
                       ''2024-01-15T19:00:00Z'', ''2024-01-15T18:59:59.999999999Z'']) ex_day = Inr out
        \<and> columns out = [''lastSubmittedTime'']
        \<and> mset (rows out) = mset [[Str ''2024-01-15T20:00:00Z''], [Str ''2024-01-15T19:30:00Z''],
                                  [Str ''2024-01-15T19:00:00Z'']]"
proof -
  let ?ss = "[''2024-01-15T20:00:01Z'', ''2024-01-15T20:00:00Z'', ''2024-01-15T19:30:00Z'',
              ''2024-01-15T19:00:00Z'', ''2024-01-15T18:59:59.999999999Z'']"
  have col: "getitem (ex_times ?ss) ''lastSubmittedTime'' = Inr (map Str ?ss)"
    by (simp add: getitem_def ex_times_def iloc_def)
  have parsed: "map (to_datetime ex_parse_time) (map Str ?ss) =
      map (\<lambda>t. Inr (Some t)) [1705348801000000000, 1705348800000000000, 1705347000000000000,
                               1705345200000000000, 1705345199999999999]"
    by (simp add: to_datetime_def ex_parse_time_def)
  show ?thesis
    using filter_by_day_window [OF col parsed, of ex_day]
    by (simp add: ex_times_def window_start_def window_end_def second_def ex_day_def)
qed

text \<open>
  C7, as stated, fails: of two records inside the window, the one submitted later comes
  first in the input and last in the output.
\<close>

theorem filter_by_day_counterexample_order:
  "rows (ex_times [''2024-01-15T19:30:00Z'', ''2024-01-15T19:10:00Z'']) =
     [[Str ''2024-01-15T19:30:00Z''], [Str ''2024-01-15T19:10:00Z'']]
   \<and> filter_by_day ex_parse_time (ex_times [''2024-01-15T19:30:00Z'', ''2024-01-15T19:10:00Z'']) ex_day =
       Inr \<lparr>columns = [''lastSubmittedTime''], dtypes = [Object],
            rows = [[Str ''2024-01-15T19:10:00Z''], [Str ''2024-01-15T19:30:00Z'']]\<rparr>"
  by (simp add: filter_by_day_def getitem_def ex_times_def iloc_def ex_parse_time_def to_datetime_def
      sort_index_def loc_slice_def is_monotonic_increasing_def not_before_def not_after_def
      slice_start_def slice_stop_def window_start_def window_end_def second_def ex_day_def)

text \<open>
  C7, amended. The filter sorts by timestamp before it slices. When every timestamp
  parses, the kept records come out in ascending order of timestamp, and they are the
  records of the window, each as often as it occurs. The input order is preserved when
  the input is already in ascending order of timestamp.
\<close>

theorem filter_by_day_order:
  assumes col: "getitem df ''lastSubmittedTime'' = Inr col"
    and parsed: "map (to_datetime parse_time) col = map (\<lambda>t. Inr (Some t)) ts"
  shows "\<exists>ks. filter_by_day parse_time df d = Inr (df\<lparr>rows := map snd ks\<rparr>)
           \<and> sorted (map fst ks)
           \<and> mset ks = mset (filter (\<lambda>(t, r). window_start d \<le> t \<and> t \<le> window_end d + (second - 1))
                               (zip ts (rows df)))
           \<and> (sorted ts \<longrightarrow>
                ks = filter (\<lambda>(t, r). window_start d \<le> t \<and> t \<le> window_end d + (second - 1))
                       (zip ts (rows df)))"
proof -
  let ?W = "\<lambda>(t, r :: cell list). window_start d \<le> t \<and> t \<le> window_end d + (second - 1)"
  let ?ks = "filter ?W (sort_key fst (zip ts (rows df)))"
  have run: "filter_by_day parse_time df d = Inr (df\<lparr>rows := map snd ?ks\<rparr>)"
    unfolding filter_by_day_parsed [OF col parsed] slice_start_def slice_stop_def by simp
  have srt: "sorted (map fst ?ks)"
    by (rule sorted_filter) simp
  have ms: "mset ?ks = mset (filter ?W (zip ts (rows df)))"
    by simp
  have same: "sorted ts \<longrightarrow> ?ks = filter ?W (zip ts (rows df))"
  proof
    assume "sorted ts"
    then have "sorted (map fst (zip ts (rows df)))"
      unfolding map_fst_zip_take by (rule sorted_wrt_take)
    then have "sort_key fst (zip ts (rows df)) = zip ts (rows df)"
      by (rule sort_key_id_if_sorted)
    then show "?ks = filter ?W (zip ts (rows df))" by simp
  qed
  from run srt ms same show ?thesis by blast
qed

theorem filter_by_day_order_witness:
  "(\<exists>ks. filter_by_day ex_parse_time (ex_times [''2024-01-15T19:10:00Z'', ''2024-01-15T20:00:01Z'',
            ''2024-01-15T20:00:00.500Z'']) ex_day =
          Inr ((ex_times [''2024-01-15T19:10:00Z'', ''2024-01-15T20:00:01Z'',
            ''2024-01-15T20:00:00.500Z''])\<lparr>rows := map snd ks\<rparr>)
     \<and> sorted (map fst ks)
     \<and> mset ks = mset [(1705345800000000000::int, [Str ''2024-01-15T19:10:00Z'']),
                       (1705348800500000000, [Str ''2024-01-15T20:00:00.500Z''])])
   \<and> sorted [1705345200000000000::int, 1705345800000000000, 1705348801000000000]
   \<and> filter_by_day ex_parse_time (ex_times [''2024-01-15T19:00:00Z'', ''2024-01-15T19:10:00Z'',
            ''2024-01-15T20:00:01Z'']) ex_day =
       Inr (ex_times [''2024-01-15T19:00:00Z'', ''2024-01-15T19:10:00Z''])"
proof -
  let ?ss = "[''2024-01-15T19:10:00Z'', ''2024-01-15T20:00:01Z'', ''2024-01-15T20:00:00.500Z'']"
  have col: "getitem (ex_times ?ss) ''lastSubmittedTime'' = Inr (map Str ?ss)"
    by (simp add: getitem_def ex_times_def iloc_def)
  have parsed: "map (to_datetime ex_parse_time) (map Str ?ss) =
      map (\<lambda>t. Inr (Some t)) [1705345800000000000, 1705348801000000000, 1705348800500000000]"
    by (simp add: to_datetime_def ex_parse_time_def)
  have first: "\<exists>ks. filter_by_day ex_parse_time (ex_times ?ss) ex_day =
          Inr ((ex_times ?ss)\<lparr>rows := map snd ks\<rparr>)
     \<and> sorted (map fst ks)
     \<and> mset ks = mset [(1705345800000000000::int, [Str ''2024-01-15T19:10:00Z'']),
                       (1705348800500000000, [Str ''2024-01-15T20:00:00.500Z''])]"
    using filter_by_day_order [OF col parsed, of ex_day]
    by (simp add: ex_times_def window_start_def window_end_def second_def ex_day_def)
  let ?tt = "[''2024-01-15T19:00:00Z'', ''2024-01-15T19:10:00Z'', ''2024-01-15T20:00:01Z'']"
  have col2: "getitem (ex_times ?tt) ''lastSubmittedTime'' = Inr (map Str ?tt)"
    by (simp add: getitem_def ex_times_def iloc_def)
  have parsed2: "map (to_datetime ex_parse_time) (map Str ?tt) =
      map (\<lambda>t. Inr (Some t)) [1705345200000000000, 1705345800000000000, 1705348801000000000]"
    by (simp add: to_datetime_def ex_parse_time_def)
  have srt: "sorted [1705345200000000000::int, 1705345800000000000, 1705348801000000000]"
    by simp
  have second: "filter_by_day ex_parse_time (ex_times ?tt) ex_day =
       Inr (ex_times [''2024-01-15T19:00:00Z'', ''2024-01-15T19:10:00Z''])"
    using filter_by_day_order [OF col2 parsed2, of ex_day] srt
    by (auto simp: ex_times_def window_start_def window_end_def second_def ex_day_def)
  from first srt second show ?thesis by blast
qed





section \<open>The schema normalizer\<close>

lemma py_in_underscore: "py_in ''_'' x \<longleftrightarrow> CHR ''_'' \<in> set x"
  by (induction x) auto

lemma select_map_filter: "select (map P xs) (map f xs) = map f (filter P xs)"
  by (induction xs) (simp_all add: select_def)

lemma select_filter: "select (map P xs) xs = filter P xs"
  using select_map_filter [of P xs "\<lambda>x. x"] by simp

lemma select_map: "select ks (map f xs) = map f (select ks xs)"
proof (induction ks arbitrary: xs)
  case Nil
  show ?case by (simp add: select_def)
next
  case (Cons k ks)
  show ?case
  proof (cases xs)
    case Nil
    then show ?thesis by (simp add: select_def)
  next
    case (Cons y ys)
    with Cons.IH [of ys] show ?thesis by (simp add: select_def)
  qed
qed

lemma select_append:
  "length ka = length xa \<Longrightarrow> select (ka @ kb) (xa @ xb) = select ka xa @ select kb xb"
  by (simp add: select_def)

lemma select_all: "length xs = length ys \<Longrightarrow> select (map (\<lambda>x. True) xs) ys = ys"
proof (induction xs arbitrary: ys)
  case Nil
  then show ?case by (simp add: select_def)
next
  case (Cons x xs)
  then obtain z zs where "ys = z # zs" by (cases ys) auto
  with Cons show ?case by (simp add: select_def)
qed

lemma map_iloc_upt: "length ks = n \<Longrightarrow> map (iloc (map f ks)) [0..<n] = map f ks"
  by (auto simp: iloc_def intro: nth_equalityI)

lemma drop_columns_frame:
  assumes "length ks = length cs"
  shows "drop_columns \<lparr>columns = cs, dtypes = ds, rows = map (\<lambda>r. map (g r) ks) rs\<rparr> L =
         \<lparr>columns = select (map (\<lambda>c. c \<notin> set L) cs) cs,
          dtypes = select (map (\<lambda>c. c \<notin> set L) cs) ds,
          rows = map (\<lambda>r. map (g r) (select (map (\<lambda>c. c \<notin> set L) cs) ks)) rs\<rparr>"
proof -
  have r: "\<And>r keep. select keep (map (iloc (map (g r) ks)) [0..<length cs]) = map (g r) (select keep ks)"
    unfolding map_iloc_upt [OF assms] by (rule select_map)
  show ?thesis
    by (simp add: drop_columns_def Let_def r)
qed

lemma those_map_Some: "those (map Some xs) = Some xs"
  by (induction xs) simp_all

lemma findall_first_key:
  "CHR ''_'' \<notin> set q \<Longrightarrow> findall_first (field_key q p) = Some (''_'' @ q @ ''_'')"
proof -
  assume q: "CHR ''_'' \<notin> set q"
  then have "takeWhile (\<lambda>c. c \<noteq> CHR ''_'') (q @ ''_'' @ p) = q"
    by (induction q) auto
  then show ?thesis
    by (simp add: findall_first_def field_key_def)
qed

lemma replace_underscore_id: "CHR ''_'' \<notin> set q \<Longrightarrow> replace_underscore (''_'' @ q @ ''_'') = q"
  by (auto simp: replace_underscore_def filter_id_conv)

lemma field_key_underscore: "CHR ''_'' \<in> set (field_key q p)"
  by (simp add: field_key_def)

lemma from_dict_frame:
  "from_dict responses =
     \<lparr>columns = columns (from_dict responses),
      dtypes = map (\<lambda>c. Object) (columns (from_dict responses)),
      rows = map (\<lambda>r. map (lookup r) (columns (from_dict responses))) responses\<rparr>"
  by (simp add: from_dict_def Let_def)

lemma clean_column_index_fields:
  assumes cols: "columns (from_dict responses) = meta @ map (\<lambda>(q, p). field_key q p) qps"
    and len: "length meta = 4"
    and meta: "\<forall>m \<in> set meta. CHR ''_'' \<notin> set m \<and> \<not> endswith m ''questionId''"
    and ids: "\<forall>(q, p) \<in> set qps. CHR ''_'' \<notin> set q"
    and kf: "kf = filter (\<lambda>(q, p). \<not> endswith (field_key q p) ''questionId'') qps"
  shows "clean_column_index (from_dict responses) =
     Inr (\<lparr>columns = meta @ map fst kf,
           dtypes = map (\<lambda>c. Object) (meta @ map (\<lambda>(q, p). field_key q p) kf),
           rows = map (\<lambda>r. map (lookup r) (meta @ map (\<lambda>(q, p). field_key q p) kf)) responses\<rparr>,
          map fst kf)"
proof -
  let ?K = "\<lambda>(q, p). field_key q p"
  let ?cs0 = "meta @ map ?K qps"
  let ?E = "\<lambda>x. endswith x ''questionId''"
  let ?cs1 = "meta @ map ?K kf"
  have keep: "map (\<lambda>c. c \<notin> set (filter ?E ?cs0)) ?cs0 = map (\<lambda>c. \<not> ?E c) ?cs0"
    by (rule map_cong) auto
  have f1: "filter (\<lambda>c. \<not> ?E c) ?cs0 = ?cs1"
  proof -
    have "filter (\<lambda>c. \<not> ?E c) meta = meta" using meta by (simp add: filter_id_conv)
    moreover have "filter (\<lambda>c. \<not> ?E c) (map ?K qps) = map ?K kf"
      unfolding kf by (simp add: filter_map comp_def case_prod_unfold)
    ultimately show ?thesis by simp
  qed
  have d1: "drop_columns (from_dict responses) (filter ?E (columns (from_dict responses))) =
      \<lparr>columns = ?cs1, dtypes = map (\<lambda>c. Object) ?cs1,
       rows = map (\<lambda>r. map (lookup r) ?cs1) responses\<rparr>"
  proof -
    have "drop_columns (from_dict responses) (filter ?E ?cs0) =
        \<lparr>columns = select (map (\<lambda>c. \<not> ?E c) ?cs0) ?cs0,
         dtypes = select (map (\<lambda>c. \<not> ?E c) ?cs0) (map (\<lambda>c. Object) ?cs0),
         rows = map (\<lambda>r. map (lookup r) (select (map (\<lambda>c. \<not> ?E c) ?cs0) ?cs0)) responses\<rparr>"
      by (subst from_dict_frame, unfold cols, subst drop_columns_frame) (simp_all only: keep)
    then show ?thesis
      unfolding cols select_filter select_map_filter f1 .
  qed
  have ck: "filter (\<lambda>x. py_in ''_'' x) ?cs1 = map ?K kf"
  proof -
    have "filter (\<lambda>x. py_in ''_'' x) meta = []"
      using meta by (simp add: py_in_underscore filter_empty_conv)
    moreover have "filter (\<lambda>x. py_in ''_'' x) (map ?K kf) = map ?K kf"
      by (simp add: py_in_underscore filter_id_conv field_key_underscore case_prod_unfold)
    ultimately show ?thesis by simp
  qed
  have kfids: "\<forall>(q, p) \<in> set kf. CHR ''_'' \<notin> set q" using ids unfolding kf by auto
  have fa: "map findall_first (map ?K kf) = map Some (map (\<lambda>(q, p). ''_'' @ q @ ''_'') kf)"
    using kfids by (auto simp: findall_first_key)
  have ru: "map replace_underscore (map (\<lambda>(q, p). ''_'' @ q @ ''_'') kf) = map fst kf"
    using kfids by (auto simp: replace_underscore_id simp del: append.simps)
  have t4: "take 4 ?cs1 = meta" using len by simp
  show ?thesis
    unfolding clean_column_index_def d1 Let_def
    by (simp only: DataFrame.simps ck fa those_map_Some option.case ru t4 length_append length_map
        refl if_False not_True_eq_False DataFrame.update_convs)
qed


lemma map_filter_titles:
  "map (\<lambda>x. case q_titles x of Some t \<Rightarrow> t | None \<Rightarrow> x) (filter (\<lambda>k. q_titles k \<noteq> None) (map fst kf)) =
   List.map_filter (\<lambda>(q, p). q_titles q) kf"
  by (induction kf) (auto simp: List.map_filter_simps)

lemma set_map_filter: "set (List.map_filter f xs) = {t. \<exists>x \<in> set xs. f x = Some t}"
  by (induction xs) (auto simp: List.map_filter_simps split: option.splits)

text \<open>
  C4. Let the columns of the flattened responses be four metadata fields followed by
  answer fields \<open>field_key q p\<close>, where no metadata field holds an underscore, ends in
  \<^verbatim>\<open>questionId\<close> or is itself a question id (of the schema or of an answer), and no
  question id holds an underscore. Then \<^verbatim>\<open>get_attendance\<close> returns a frame whose
  columns are the four metadata fields, unrenamed, followed by the titles of the answer
  fields whose id is in the schema (the \<^verbatim>\<open>questionId\<close> echo of each answer is dropped
  first). As a set the columns are exactly the metadata fields and those titles; every
  field whose id is not in the schema is gone. Each row holds the response's own values
  of the fields kept.
\<close>

theorem get_attendance_fields:
  assumes cols: "columns (from_dict responses) = meta @ map (\<lambda>(q, p). field_key q p) qps"
    and len: "length meta = 4"
    and meta: "\<forall>m \<in> set meta. CHR ''_'' \<notin> set m \<and> \<not> endswith m ''questionId''
                 \<and> q_titles m = None \<and> m \<notin> set (map fst qps)"
    and ids: "\<forall>(q, p) \<in> set qps. CHR ''_'' \<notin> set q"
  shows "\<exists>out. get_attendance responses q_titles = Inr out
     \<and> columns out =
         meta @ List.map_filter (\<lambda>(q, p). q_titles q)
                  (filter (\<lambda>(q, p). \<not> endswith (field_key q p) ''questionId'') qps)
     \<and> set (columns out) =
         set meta \<union> {t. \<exists>q p. (q, p) \<in> set qps \<and> \<not> endswith (field_key q p) ''questionId''
                                \<and> q_titles q = Some t}
     \<and> rows out =
         map (\<lambda>r. map (lookup r)
                     (meta @ map (\<lambda>(q, p). field_key q p)
                        (filter (\<lambda>(q, p). \<not> endswith (field_key q p) ''questionId'' \<and> q_titles q \<noteq> None)
                           qps)))
           responses"
proof -
  let ?K = "\<lambda>(q, p). field_key q p"
  define kf where "kf = filter (\<lambda>(q, p). \<not> endswith (field_key q p) ''questionId'') qps"
  have meta': "\<forall>m \<in> set meta. CHR ''_'' \<notin> set m \<and> \<not> endswith m ''questionId''"
    using meta by blast
  note cci = clean_column_index_fields [OF cols len meta' ids kf_def]
  let ?L = "filter (\<lambda>k. q_titles k = None) (map fst kf)"
  let ?cs = "meta @ map fst kf"
  let ?ks = "meta @ map ?K kf"
  have lk: "length ?ks = length ?cs" by simp
  have sub: "set (map fst kf) \<subseteq> set (map fst qps)" unfolding kf_def by auto
  have keep: "map (\<lambda>c. c \<notin> set ?L) ?cs =
              map (\<lambda>m. True) meta @ map (\<lambda>x. q_titles (fst x) \<noteq> None) kf"
  proof -
    have nm: "\<And>m. m \<in> set meta \<Longrightarrow> m \<notin> set (map fst kf)"
      using meta sub by blast
    have a: "map (\<lambda>c. c \<notin> set ?L) meta = map (\<lambda>m. True) meta"
      by (rule map_cong) (use nm in auto)
    have b: "map (\<lambda>c. c \<notin> set ?L) (map fst kf) = map (\<lambda>x. q_titles (fst x) \<noteq> None) kf"
      by (auto simp: comp_def)
    show ?thesis unfolding map_append a b ..
  qed
  have sc: "select (map (\<lambda>c. c \<notin> set ?L) ?cs) ?cs = meta @ filter (\<lambda>k. q_titles k \<noteq> None) (map fst kf)"
    unfolding keep by (simp add: select_append select_all select_map_filter filter_map comp_def)
  have sk: "select (map (\<lambda>c. c \<notin> set ?L) ?cs) ?ks =
            meta @ map ?K (filter (\<lambda>x. q_titles (fst x) \<noteq> None) kf)"
    unfolding keep by (simp add: select_append select_all select_map_filter)
  have ff: "filter (\<lambda>x. q_titles (fst x) \<noteq> None) kf =
            filter (\<lambda>(q, p). \<not> endswith (field_key q p) ''questionId'' \<and> q_titles q \<noteq> None) qps"
    unfolding kf_def by (simp add: case_prod_unfold conj_commute)
  have mm: "map (\<lambda>x. case q_titles x of Some t \<Rightarrow> t | None \<Rightarrow> x) meta = meta"
    using meta by (simp add: map_idI)
  let ?dt = "select (map (\<lambda>c. c \<notin> set ?L) ?cs) (map (\<lambda>c. Object) ?ks)"
  let ?kq = "filter (\<lambda>x. q_titles (fst x) \<noteq> None) kf"
  have d2: "drop_columns
        \<lparr>columns = ?cs, dtypes = map (\<lambda>c. Object) ?ks,
         rows = map (\<lambda>r. map (lookup r) ?ks) responses\<rparr> ?L =
      \<lparr>columns = meta @ filter (\<lambda>k. q_titles k \<noteq> None) (map fst kf), dtypes = ?dt,
       rows = map (\<lambda>r. map (lookup r) (meta @ map ?K ?kq)) responses\<rparr>"
    unfolding drop_columns_frame [OF lk] sc sk ..
  have rn: "map (\<lambda>x. case q_titles x of Some t \<Rightarrow> t | None \<Rightarrow> x)
              (meta @ filter (\<lambda>k. q_titles k \<noteq> None) (map fst kf)) =
            meta @ List.map_filter (\<lambda>(q, p). q_titles q) kf"
    unfolding map_append mm map_filter_titles ..
  have run: "get_attendance responses q_titles =
      Inr \<lparr>columns = meta @ List.map_filter (\<lambda>(q, p). q_titles q) kf, dtypes = ?dt,
           rows = map (\<lambda>r. map (lookup r) (meta @ map ?K ?kq)) responses\<rparr>"
    unfolding get_attendance_def cci
    by (simp only: sum.case prod.case Let_def d2 DataFrame.simps DataFrame.update_convs rn)
  have st: "set (List.map_filter (\<lambda>(q, p). q_titles q) kf) =
        {t. \<exists>q p. (q, p) \<in> set qps \<and> \<not> endswith (field_key q p) ''questionId'' \<and> q_titles q = Some t}"
    unfolding kf_def set_map_filter by force
  show ?thesis
    unfolding run ff using st by (simp add: kf_def)
qed

theorem get_attendance_fields_witness:
  "\<exists>out. get_attendance [ex_response ''a@x.edu'' ''t1'' '' Graphs'' ''1'',
                             ex_response ''b@x.edu'' ''t2'' ''Trees'' ''3''] ex_q_titles = Inr out
     \<and> columns out = [''responseId'', ''createTime'', ''lastSubmittedTime'', ''respondentEmail'',
                       ''What is the Concept of the Day?'', ''Understanding of the topic'']
     \<and> set (columns out) = {''responseId'', ''createTime'', ''lastSubmittedTime'', ''respondentEmail'',
                       ''What is the Concept of the Day?'', ''Understanding of the topic''}
     \<and> rows out = [[Str ''r-a@x.edu'', Str ''t1'', Str ''t1'', Str ''a@x.edu'', Str '' Graphs'', Str ''1''],
                    [Str ''r-b@x.edu'', Str ''t2'', Str ''t2'', Str ''b@x.edu'', Str ''Trees'', Str ''3'']]"
proof -
  let ?rs = "[ex_response ''a@x.edu'' ''t1'' '' Graphs'' ''1'', ex_response ''b@x.edu'' ''t2'' ''Trees'' ''3'']"
  let ?meta = "[''responseId'', ''createTime'', ''lastSubmittedTime'', ''respondentEmail'']"
  let ?qps = "[(''1a2b'', ''questionId''), (''1a2b'', ''textAnswers_answers_0_value''),
               (''dead'', ''questionId''), (''dead'', ''textAnswers_answers_0_value''),
               (''9f00'', ''questionId''), (''9f00'', ''textAnswers_answers_0_value'')]"
  have cols: "columns (from_dict ?rs) = ?meta @ map (\<lambda>(q, p). field_key q p) ?qps"
    by (simp add: from_dict_def union_keys_def ex_response_def field_key_def)
  have len: "length ?meta = 4" by simp
  have meta: "\<forall>m \<in> set ?meta. CHR ''_'' \<notin> set m \<and> \<not> endswith m ''questionId''
                 \<and> ex_q_titles m = None \<and> m \<notin> set (map fst ?qps)"
    by (simp add: endswith_def ex_q_titles_def)
  have ids: "\<forall>(q, p) \<in> set ?qps. CHR ''_'' \<notin> set q" by simp
  have e: "endswith (field_key ''1a2b'' ''questionId'') ''questionId''"
    "\<not> endswith (field_key ''1a2b'' ''textAnswers_answers_0_value'') ''questionId''"
    "endswith (field_key ''dead'' ''questionId'') ''questionId''"
    "\<not> endswith (field_key ''dead'' ''textAnswers_answers_0_value'') ''questionId''"
    "endswith (field_key ''9f00'' ''questionId'') ''questionId''"
    "\<not> endswith (field_key ''9f00'' ''textAnswers_answers_0_value'') ''questionId''"
    by (simp_all add: endswith_def field_key_def)
  have q: "ex_q_titles ''1a2b'' = Some ''What is the Concept of the Day?''" "ex_q_titles ''dead'' = None"
    "ex_q_titles ''9f00'' = Some ''Understanding of the topic''"
    by (simp_all add: ex_q_titles_def)
  from get_attendance_fields [OF cols len meta ids]
  obtain out where out: "get_attendance ?rs ex_q_titles = Inr out"
    "columns out = ?meta @ List.map_filter (\<lambda>(q, p). ex_q_titles q)
        (filter (\<lambda>(q, p). \<not> endswith (field_key q p) ''questionId'') ?qps)"
    "rows out = map (\<lambda>r. map (lookup r)
        (?meta @ map (\<lambda>(q, p). field_key q p)
           (filter (\<lambda>(q, p). \<not> endswith (field_key q p) ''questionId'' \<and> ex_q_titles q \<noteq> None) ?qps))) ?rs"
    by blast
  have c: "columns out = [''responseId'', ''createTime'', ''lastSubmittedTime'', ''respondentEmail'',
                       ''What is the Concept of the Day?'', ''Understanding of the topic'']"
    unfolding out(2) by (simp add: e q List.map_filter_simps)
  have r: "rows out = [[Str ''r-a@x.edu'', Str ''t1'', Str ''t1'', Str ''a@x.edu'', Str '' Graphs'', Str ''1''],
                    [Str ''r-b@x.edu'', Str ''t2'', Str ''t2'', Str ''b@x.edu'', Str ''Trees'', Str ''3'']]"
    unfolding out(3) by (simp add: e q) (simp add: field_key_def ex_response_def lookup_def)
  show ?thesis using out(1) c r by simp
qed

section \<open>The keyphrase\<close>

lemma get_loc_Some: "get_loc cs c = Some i \<Longrightarrow> i < length cs \<and> cs ! i = c"
proof (induction cs arbitrary: i)
  case Nil
  then show ?case by simp
next
  case (Cons x xs)
  show ?case
  proof (cases "x = c")
    case True
    with Cons.prems show ?thesis by simp
  next
    case False
    with Cons.prems obtain j where j: "get_loc xs c = Some j" "i = Suc j" by auto
    from Cons.IH [OF j(1)] j(2) show ?thesis by simp
  qed
qed

lemma sequence_strip_lower:
  "map (\<lambda>r. iloc r i) rs = map Str answers \<Longrightarrow>
   sequence (map (\<lambda>r. strip_lower (iloc r i)) rs) = Inr (map (\<lambda>a. Str (py_lower (py_strip a))) answers)"
proof (induction rs arbitrary: answers)
  case Nil
  then show ?case by simp
next
  case (Cons r rs)
  then obtain a as where as: "answers = a # as" by (cases answers) auto
  with Cons.prems have h: "iloc r i = Str a" "map (\<lambda>r. iloc r i) rs = map Str as" by auto
  from Cons.IH [OF h(2)] h(1) as show ?case by (simp add: strip_lower_def)
qed

lemma zip_map_right_filter:
  "length xs = length ys \<Longrightarrow>
   filter P (map (\<lambda>(r, v). g r v) (zip xs (map f ys))) =
   map (\<lambda>(a, r). g r (f a)) (filter (\<lambda>(a, r). P (g r (f a))) (zip ys xs))"
proof (induction xs arbitrary: ys)
  case Nil
  then show ?case by simp
next
  case (Cons x xs)
  then obtain y ys' where "ys = y # ys'" by (cases ys) auto
  with Cons show ?case by simp
qed

lemma filter_by_passphrase_run:
  assumes loc: "get_loc (columns df) ckey = Some i"
    and strs: "map (\<lambda>r. iloc r i) (rows df) = map Str answers"
    and ne: "rows df \<noteq> []"
  shows "filter_by_passphrase ratio df p =
         Inr (df\<lparr>dtypes := (dtypes df)[i := Object],
                 rows := map (\<lambda>(a, r). (map (iloc r) [0..<length (columns df)])[i := Str (py_lower (py_strip a))])
                           (filter (\<lambda>(a, r). FUZZ_THRESHOLD \<le> ratio (py_lower (py_strip a)) p)
                              (zip answers (rows df)))\<rparr>)"
proof -
  let ?n = "length (columns df)"
  have i: "i < ?n" using get_loc_Some [OF loc] by simp
  have len: "length (rows df) = length answers"
    using strs by (metis length_map)
  have ans: "answers \<noteq> []" using len ne by auto
  have upd: "\<And>r v. iloc ((map (iloc r) [0..<?n])[i := v]) i = v"
    using i by (simp add: iloc_def)
  let ?g = "\<lambda>r v. (map (iloc r) [0..<?n])[i := v]"
  let ?P = "\<lambda>x. case iloc x i of Str s \<Rightarrow> FUZZ_THRESHOLD \<le> ratio s p | Num q \<Rightarrow> False | NaN \<Rightarrow> False"
  have "filter ?P (map (\<lambda>(r, v). ?g r v) (zip (rows df) (map (\<lambda>a. Str (py_lower (py_strip a))) answers))) =
        map (\<lambda>(a, r). ?g r (Str (py_lower (py_strip a))))
          (filter (\<lambda>(a, r). ?P (?g r (Str (py_lower (py_strip a))))) (zip answers (rows df)))"
    by (rule zip_map_right_filter [OF len])
  also have "\<dots> = map (\<lambda>(a, r). ?g r (Str (py_lower (py_strip a))))
          (filter (\<lambda>(a, r). FUZZ_THRESHOLD \<le> ratio (py_lower (py_strip a)) p) (zip answers (rows df)))"
    by (simp add: upd)
  finally show ?thesis
    using ne ans
    by (simp add: filter_by_passphrase_def loc sequence_strip_lower [OF strs] setitem_def Let_def)
qed

lemma filter_by_passphrase_empty:
  assumes loc: "get_loc (columns df) ckey = Some i"
    and emp: "rows df = []"
  shows "filter_by_passphrase ratio df p = Inr \<lparr>columns = [], dtypes = [], rows = []\<rparr>"
  by (simp add: filter_by_passphrase_def loc emp setitem_def)

lemma filter_by_passphrase_not_string:
  assumes loc: "get_loc (columns df) ckey = Some i"
    and bad: "\<exists>r \<in> set (rows df). \<forall>s. iloc r i \<noteq> Str s"
  shows "filter_by_passphrase ratio df p = Inl AttributeError"
proof -
  from bad obtain r where r: "r \<in> set (rows df)" "\<forall>s. iloc r i \<noteq> Str s" by blast
  then have "strip_lower (iloc r i) = Inl AttributeError"
    by (cases "iloc r i") (simp_all add: strip_lower_def)
  with r(1) have "Inl AttributeError \<in> set (map (\<lambda>r. strip_lower (iloc r i)) (rows df))"
    by force
  then have "\<exists>e. sequence (map (\<lambda>r. strip_lower (iloc r i)) (rows df)) = Inl e"
    unfolding sequence_Inl_iff by blast
  then obtain e where e: "sequence (map (\<lambda>r. strip_lower (iloc r i)) (rows df)) = Inl e" by blast
  then have "Inl e \<in> set (map (\<lambda>r. strip_lower (iloc r i)) (rows df))" by (rule sequence_Inl_mem)
  then have "e = AttributeError"
    by (auto simp: strip_lower_def split: cell.splits)
  with e show ?thesis by (simp add: filter_by_passphrase_def loc)
qed

lemma filter_by_passphrase_result:
  assumes run: "filter_by_passphrase ratio df p = Inr out"
  shows "(rows out \<noteq> [] \<longrightarrow> columns out \<noteq> []) \<and> set (dtypes out) \<subseteq> insert Object (set (dtypes df))"
proof -
  from run obtain i where loc: "get_loc (columns df) ckey = Some i"
    by (auto simp: filter_by_passphrase_def split: option.splits)
  from run loc obtain vals where
    vals: "sequence (map (\<lambda>r. strip_lower (iloc r i)) (rows df)) = Inr vals"
    by (auto simp: filter_by_passphrase_def split: sum.splits)
  have cols: "columns df \<noteq> []" using get_loc_Some [OF loc] by auto
  have sub: "set ((dtypes df)[i := Object]) \<subseteq> insert Object (set (dtypes df))"
    by (rule set_update_subset_insert)
  show ?thesis
  proof (cases "rows (setitem df i vals) = []")
    case True
    with run loc vals have "out = \<lparr>columns = [], dtypes = [], rows = []\<rparr>"
      by (simp add: filter_by_passphrase_def Let_def)
    then show ?thesis by simp
  next
    case False
    with run loc vals have "columns out = columns df" "dtypes out = (dtypes df)[i := Object]"
      by (auto simp: filter_by_passphrase_def Let_def setitem_def)
    with cols sub show ?thesis by simp
  qed
qed

section \<open>Signals, assistance and the report\<close>

lemma iloc_map_upt: "i < n \<Longrightarrow> iloc (map f [0..<n]) i = f i"
  by (simp add: iloc_def)

lemma rating_is_signal:
  "any_in [''Help'', ''Understanding'', ''Speed''] s \<Longrightarrow>
   any_in [''hours'', ''Help'', ''Understanding'', ''Speed''] s"
  by (auto simp: any_in_def)

lemma to_numeric_not_Str: "to_numeric parse_num c \<noteq> Str s"
  by (simp add: to_numeric_def split: cell.splits option.splits)

lemma sequence_lt2:
  "\<forall>i \<in> set is. \<forall>s. iloc r i \<noteq> Str s \<Longrightarrow>
   sequence (map (\<lambda>i. lt2 (iloc r i)) is) =
     Inr (map (\<lambda>i. case iloc r i of Num x \<Rightarrow> (case x of Finite q \<Rightarrow> q < 2 | PosInf \<Rightarrow> False | NegInf \<Rightarrow> True)
        | Str s \<Rightarrow> False | NaN \<Rightarrow> False) is)"
proof (induction "is")
  case Nil
  show ?case by simp
next
  case (Cons i "is")
  then show ?case by (cases "iloc r i") (simp_all add: lt2_def float_lt_def)
qed

lemma sequence_rows_Inr:
  "\<forall>r \<in> set rs. f r = Inr (g r) \<Longrightarrow> sequence (map f rs) = Inr (map g rs)"
  by (induction rs) simp_all

lemma filter_zip_map: "map snd (filter (\<lambda>(b, r). P b) (zip (map g rs) rs)) = filter (\<lambda>r. P (g r)) rs"
  by (induction rs) simp_all

lemma list_ex_map_filter:
  "list_ex (\<lambda>b. b) (map f (filter P xs)) = list_ex (\<lambda>i. P i \<and> f i) xs"
  by (induction xs) auto

lemma identify_assistance_need_numeric:
  assumes cols: "columns df \<noteq> []"
    and nostr: "\<forall>r \<in> set (rows df). \<forall>i < length (columns df).
      any_in [''Help'', ''Understanding'', ''Speed''] (columns df ! i) \<longrightarrow> (\<forall>s. iloc r i \<noteq> Str s)"
  shows "identify_assistance_need df =
     Inr (df\<lparr>rows := filter (\<lambda>r. list_ex (\<lambda>i. any_in [''Help'', ''Understanding'', ''Speed''] (columns df ! i)
                                             \<and> (case iloc r i of Num x \<Rightarrow> (case x of Finite q \<Rightarrow> q < 2 | PosInf \<Rightarrow> False | NegInf \<Rightarrow> True)
        | Str s \<Rightarrow> False | NaN \<Rightarrow> False))
                                       [0..<length (columns df)]) (rows df)\<rparr>)"
proof -
  let ?is = "filter (\<lambda>i. any_in [''Help'', ''Understanding'', ''Speed''] (columns df ! i)) [0..<length (columns df)]"
  let ?b = "\<lambda>r. map (\<lambda>i. case iloc r i of Num x \<Rightarrow> (case x of Finite q \<Rightarrow> q < 2 | PosInf \<Rightarrow> False | NegInf \<Rightarrow> True)
        | Str s \<Rightarrow> False | NaN \<Rightarrow> False) ?is"
  have "\<forall>r \<in> set (rows df). sequence (map (\<lambda>i. lt2 (iloc r i)) ?is) = Inr (?b r)"
  proof
    fix r assume r: "r \<in> set (rows df)"
    have "\<forall>i \<in> set ?is. \<forall>s. iloc r i \<noteq> Str s" using nostr r by auto
    then show "sequence (map (\<lambda>i. lt2 (iloc r i)) ?is) = Inr (?b r)" by (rule sequence_lt2)
  qed
  then have sq: "sequence (map (\<lambda>r. sequence (map (\<lambda>i. lt2 (iloc r i)) ?is)) (rows df)) = Inr (map ?b (rows df))"
    by (rule sequence_rows_Inr)
  show ?thesis
    unfolding identify_assistance_need_def Let_def sq using cols
    by (simp add: filter_zip_map list_ex_map_filter)
qed

lemma convert_Inr:
  assumes "convert_numeric_cols parse_num df = Inr c"
  shows "columns df \<noteq> []" and "columns c = columns df"
    and "rows df = [] \<Longrightarrow> c = df"
    and "rows df \<noteq> [] \<Longrightarrow> rows c =
           map (\<lambda>r. map (\<lambda>i. if any_in [''hours'', ''Help'', ''Understanding'', ''Speed''] (columns df ! i)
                               then to_numeric parse_num (iloc r i) else iloc r i) [0..<length (columns df)])
             (rows df)"
    and "rows df \<noteq> [] \<Longrightarrow> i < length (columns df) \<Longrightarrow>
         dtype_at c i =
           (if any_in [''hours'', ''Help'', ''Understanding'', ''Speed''] (columns df ! i) then Number
            else dtype_at df i)"
  using assms by (auto simp: convert_numeric_cols_def Let_def dtype_at_def split: if_splits)

lemma convert_total: "columns df \<noteq> [] \<Longrightarrow> \<exists>c. convert_numeric_cols parse_num df = Inr c"
  by (simp add: convert_numeric_cols_def Let_def)

lemma convert_no_columns: "columns df = [] \<Longrightarrow> convert_numeric_cols parse_num df = Inl IndexError"
  by (simp add: convert_numeric_cols_def Let_def)

lemma column_convert:
  assumes "convert_numeric_cols parse_num df = Inr c" "rows df \<noteq> []" "i < length (columns df)"
    "any_in [''hours'', ''Help'', ''Understanding'', ''Speed''] (columns df ! i)"
  shows "map (\<lambda>r. iloc r i) (rows c) = map (\<lambda>r. to_numeric parse_num (iloc r i)) (rows df)"
  unfolding convert_Inr(4) [OF assms(1,2)] using assms(3,4) by (simp add: iloc_map_upt comp_def)

lemma convert_keeps_column:
  assumes "convert_numeric_cols parse_num df = Inr c" "i < length (columns df)"
    and "\<not> any_in [''hours'', ''Help'', ''Understanding'', ''Speed''] (columns df ! i)"
  shows "map (\<lambda>r. iloc r i) (rows c) = map (\<lambda>r. iloc r i) (rows df)"
proof (cases "rows df = []")
  case True
  then show ?thesis using convert_Inr(3) [OF assms(1)] by simp
next
  case False
  show ?thesis
    unfolding convert_Inr(4) [OF assms(1) False] using assms(2,3) by (simp add: iloc_map_upt comp_def)
qed

lemma converted_no_strings:
  assumes conv: "convert_numeric_cols parse_num df = Inr c"
  shows "\<forall>r \<in> set (rows c). \<forall>i < length (columns c).
      any_in [''Help'', ''Understanding'', ''Speed''] (columns c ! i) \<longrightarrow> (\<forall>s. iloc r i \<noteq> Str s)"
proof (cases "rows df = []")
  case True
  then show ?thesis using convert_Inr(3) [OF conv] by simp
next
  case False
  show ?thesis
    unfolding convert_Inr(4) [OF conv False] convert_Inr(2) [OF conv]
    by (auto simp: iloc_map_upt to_numeric_not_Str dest: rating_is_signal)
qed

text \<open>
  C6. A frame without columns is no signal-extracted record set:
  \<^verbatim>\<open>convert_numeric_cols\<close> raises IndexError on it, as does
  \<^verbatim>\<open>identify_assistance_need\<close>. On every other frame \<^verbatim>\<open>convert_numeric_cols\<close>
  returns a frame \<open>c\<close>, and on it \<^verbatim>\<open>identify_assistance_need\<close> raises nothing and
  returns exactly the rows in which some column whose name contains Help, Understanding
  or Speed holds a number below 2 (minus infinity is, plus infinity is not). A NaN is
  never below 2, so a row whose rating values are all missing or at least 2 is not
  returned.
\<close>

theorem identify_assistance_need_converted:
  "(columns df = [] \<longrightarrow>
      convert_numeric_cols parse_num df = Inl IndexError \<and> identify_assistance_need df = Inl IndexError)
   \<and> (columns df \<noteq> [] \<longrightarrow>
      (\<exists>c. convert_numeric_cols parse_num df = Inr c \<and>
        identify_assistance_need c =
          Inr (c\<lparr>rows :=
            filter (\<lambda>r. list_ex (\<lambda>i. any_in [''Help'', ''Understanding'', ''Speed''] (columns c ! i)
                          \<and> (case iloc r i of
                               Num x \<Rightarrow> (case x of Finite q \<Rightarrow> q < 2 | PosInf \<Rightarrow> False | NegInf \<Rightarrow> True)
                             | Str s \<Rightarrow> False
                             | NaN \<Rightarrow> False))
                      [0..<length (columns c)])
              (rows c)\<rparr>)))"
proof (rule conjI; rule impI)
  assume "columns df = []"
  then show "convert_numeric_cols parse_num df = Inl IndexError \<and> identify_assistance_need df = Inl IndexError"
    by (simp add: convert_no_columns identify_assistance_need_def Let_def)
next
  assume cols: "columns df \<noteq> []"
  from convert_total [OF cols] obtain c where conv: "convert_numeric_cols parse_num df = Inr c"
    by blast
  have cols': "columns c \<noteq> []" using convert_Inr(1,2) [OF conv] by simp
  have "identify_assistance_need c =
          Inr (c\<lparr>rows :=
            filter (\<lambda>r. list_ex (\<lambda>i. any_in [''Help'', ''Understanding'', ''Speed''] (columns c ! i)
                          \<and> (case iloc r i of Num x \<Rightarrow> (case x of Finite q \<Rightarrow> q < 2 | PosInf \<Rightarrow> False | NegInf \<Rightarrow> True)
        | Str s \<Rightarrow> False | NaN \<Rightarrow> False))
                      [0..<length (columns c)])
              (rows c)\<rparr>)"
    by (rule identify_assistance_need_numeric [OF cols' converted_no_strings [OF conv]])
  with conv show "\<exists>c. convert_numeric_cols parse_num df = Inr c \<and>
        identify_assistance_need c =
          Inr (c\<lparr>rows :=
            filter (\<lambda>r. list_ex (\<lambda>i. any_in [''Help'', ''Understanding'', ''Speed''] (columns c ! i)
                          \<and> (case iloc r i of
                               Num x \<Rightarrow> (case x of Finite q \<Rightarrow> q < 2 | PosInf \<Rightarrow> False | NegInf \<Rightarrow> True)
                             | Str s \<Rightarrow> False
                             | NaN \<Rightarrow> False))
                      [0..<length (columns c)])
              (rows c)\<rparr>)"
    by (simp add: float_lt_def)
qed

theorem identify_assistance_need_converted_witness:
  "convert_numeric_cols ex_parse_num \<lparr>columns = [], dtypes = [], rows = []\<rparr> = Inl IndexError
   \<and> identify_assistance_need \<lparr>columns = [], dtypes = [], rows = []\<rparr> = Inl IndexError
   \<and> (\<exists>c. convert_numeric_cols ex_parse_num ex_signals = Inr c
        \<and> rows c = [[Str ''a@x.edu'', Num (Finite 2), Num (Finite 1), NaN],
                    [Str ''b@x.edu'', NaN, NaN, NaN],
                    [Str ''c@x.edu'', Num (Finite 4), Num (Finite 3), Num (Finite 2)],
                    [Str ''d@x.edu'', Num (Finite 3), Num NegInf, Num PosInf]]
        \<and> identify_assistance_need c =
            Inr (c\<lparr>rows := [[Str ''a@x.edu'', Num (Finite 2), Num (Finite 1), NaN],
                            [Str ''d@x.edu'', Num (Finite 3), Num NegInf, Num PosInf]]\<rparr>))"
proof -
  let ?e = "\<lparr>columns = [], dtypes = [], rows = []\<rparr> :: DataFrame"
  have e: "convert_numeric_cols ex_parse_num ?e = Inl IndexError \<and> identify_assistance_need ?e = Inl IndexError"
    using identify_assistance_need_converted [of ?e ex_parse_num] by simp
  have cols: "columns ex_signals \<noteq> []" by (simp add: ex_signals_def)
  from identify_assistance_need_converted [of ex_signals ex_parse_num] cols
  obtain c where c: "convert_numeric_cols ex_parse_num ex_signals = Inr c"
    and need: "identify_assistance_need c =
          Inr (c\<lparr>rows :=
            filter (\<lambda>r. list_ex (\<lambda>i. any_in [''Help'', ''Understanding'', ''Speed''] (columns c ! i)
                          \<and> (case iloc r i of
                               Num x \<Rightarrow> (case x of Finite q \<Rightarrow> q < 2 | PosInf \<Rightarrow> False | NegInf \<Rightarrow> True)
                             | Str s \<Rightarrow> False
                             | NaN \<Rightarrow> False))
                      [0..<length (columns c)])
              (rows c)\<rparr>)"
    by blast
  have "convert_numeric_cols ex_parse_num ex_signals =
     Inr \<lparr>columns = [''respondentEmail'', ''How many hours did you spend?'', ''Understanding of the topic'',
                 ''Speed of the lecture''],
      dtypes = [Object, Number, Number, Number],
      rows = [[Str ''a@x.edu'', Num (Finite 2), Num (Finite 1), NaN],
              [Str ''b@x.edu'', NaN, NaN, NaN],
              [Str ''c@x.edu'', Num (Finite 4), Num (Finite 3), Num (Finite 2)],
              [Str ''d@x.edu'', Num (Finite 3), Num NegInf, Num PosInf]]\<rparr>"
    by (simp add: convert_numeric_cols_def ex_signals_def Let_def any_in_def iloc_def dtype_at_def
        to_numeric_def ex_parse_num_def upt_rec)
  with c have cv: "c =
     \<lparr>columns = [''respondentEmail'', ''How many hours did you spend?'', ''Understanding of the topic'',
                 ''Speed of the lecture''],
      dtypes = [Object, Number, Number, Number],
      rows = [[Str ''a@x.edu'', Num (Finite 2), Num (Finite 1), NaN],
              [Str ''b@x.edu'', NaN, NaN, NaN],
              [Str ''c@x.edu'', Num (Finite 4), Num (Finite 3), Num (Finite 2)],
              [Str ''d@x.edu'', Num (Finite 3), Num NegInf, Num PosInf]]\<rparr>"
    by simp
  have "identify_assistance_need c =
            Inr (c\<lparr>rows := [[Str ''a@x.edu'', Num (Finite 2), Num (Finite 1), NaN],
                            [Str ''d@x.edu'', Num (Finite 3), Num NegInf, Num PosInf]]\<rparr>)"
    unfolding need unfolding cv by (simp add: any_in_def iloc_def upt_rec)
  with c cv e show ?thesis by simp
qed

section \<open>The run\<close>

lemma map_fst_filter_zip:
  "length xs = length ys \<Longrightarrow> map fst (filter (\<lambda>(a, r). P a) (zip xs ys)) = filter P xs"
proof (induction xs arbitrary: ys)
  case Nil
  show ?case by simp
next
  case (Cons x xs)
  then obtain y ys' where "ys = y # ys'" by (cases ys) auto
  with Cons show ?case by simp
qed

lemma ckey_not_signal: "\<not> any_in [''hours'', ''Help'', ''Understanding'', ''Speed''] ckey"
  by (simp add: any_in_def ckey_def)

lemma apply_rows_report_csv:
  "apply_rows (\<lambda>x. set_score fails x s) xs w = (w', r) \<Longrightarrow> report_csv w' = report_csv w"
proof (induction xs arbitrary: w)
  case Nil
  then show ?case by auto
next
  case (Cons x xs)
  obtain w1 r1 where st: "set_score fails x s w = (w1, r1)"
    by (cases "set_score fails x s w")
  then have w1: "report_csv w1 = report_csv w"
    by (auto simp: set_score_def Let_def split: if_splits)
  show ?case
  proof (cases r1)
    case (Inl e)
    with Cons.prems st have "w' = w1" by simp
    with w1 show ?thesis by simp
  next
    case (Inr u)
    with Cons.prems st have "apply_rows (\<lambda>x. set_score fails x s) xs w1 = (w', r)"
      by simp
    from Cons.IH [OF this] w1 show ?thesis by simp
  qed
qed

lemma canvas_upload_report_csv:
  assumes "canvas_upload fails users df w = (w', r)"
  shows "report_csv w' = report_csv w"
proof -
  let ?w0 = "w\<lparr>stdout := stdout w @ [Line ''Generating user list! This might take a while...'']\<rparr>"
  show ?thesis
  proof (cases "users = []")
    case True
    with assms show ?thesis by (auto simp: canvas_upload_def Let_def)
  next
    case False
    show ?thesis
    proof (cases "getitem df ''respondentEmail''")
      case (Inl e)
      with assms False show ?thesis by (auto simp: canvas_upload_def Let_def)
    next
      case (Inr emails)
      obtain w1 r1 where a: "apply_rows (\<lambda>x. set_score fails x 0)
          (filter (\<lambda>u. \<not> isin (login_id u) emails) users) ?w0 = (w1, r1)"
        by (cases "apply_rows (\<lambda>x. set_score fails x 0)
          (filter (\<lambda>u. \<not> isin (login_id u) emails) users) ?w0")
      have w1: "report_csv w1 = report_csv w"
        using apply_rows_report_csv [OF a] by simp
      show ?thesis
      proof (cases r1)
        case (Inl e)
        with assms False Inr a w1 show ?thesis by (auto simp: canvas_upload_def Let_def)
      next
        case (Inr u)
        with assms False \<open>getitem df ''respondentEmail'' = Inr emails\<close> a
        have "apply_rows (\<lambda>x. set_score fails x 1) (filter (\<lambda>u. isin (login_id u) emails) users) w1 = (w', r)"
          by (simp add: canvas_upload_def Let_def)
        from apply_rows_report_csv [OF this] w1 show ?thesis by simp
      qed
    qed
  qed
qed

lemma main_validator_raises:
  assumes key: "keyphrase a = Some k"
    and att: "get_attendance (form_responses ev) (form_q_titles ev) = Inr df1"
    and day: "filter_by_day (pd_parse_time ev) df1 (date a) = Inr df2"
    and pass: "filter_by_passphrase (fuzz_ratio ev) df2 (py_lower (py_strip k)) = Inl e"
  shows "main ev a w = (w\<lparr>stdout := stdout w @ [Line (''Connecting to '' @ course_name ev)]\<rparr>, Inl e)"
  by (simp add: main_def key att day pass Let_def)

lemma main_convert_raises:
  assumes key: "keyphrase a = Some k"
    and att: "get_attendance (form_responses ev) (form_q_titles ev) = Inr df1"
    and day: "filter_by_day (pd_parse_time ev) df1 (date a) = Inr df2"
    and pass: "filter_by_passphrase (fuzz_ratio ev) df2 (py_lower (py_strip k)) = Inr df3"
    and conv: "convert_numeric_cols (pd_parse_num ev) df3 = Inl e"
  shows "main ev a w = (w\<lparr>stdout := stdout w @ [Line (''Connecting to '' @ course_name ev)]\<rparr>, Inl e)"
  by (simp add: main_def key att day pass conv Let_def)

lemma main_report:
  assumes key: "keyphrase a = Some k"
    and att: "get_attendance (form_responses ev) (form_q_titles ev) = Inr df1"
    and day: "filter_by_day (pd_parse_time ev) df1 (date a) = Inr df2"
    and pass: "filter_by_passphrase (fuzz_ratio ev) df2 (py_lower (py_strip k)) = Inr df3"
    and conv: "convert_numeric_cols (pd_parse_num ev) df3 = Inr c"
  shows "report_csv (fst (main ev a w)) = Some (report (np_sum ev) (np_div ev) c)"
proof -
  let ?w2 = "w\<lparr>stdout := stdout w @ [Line (''Connecting to '' @ course_name ev)],
               report_csv := Some (report (np_sum ev) (np_div ev) c)\<rparr>"
  show ?thesis
  proof (cases "identify_assistance_need c")
    case (Inl e)
    then show ?thesis by (simp add: main_def key att day pass conv Let_def)
  next
    case need: (Inr support_df)
    show ?thesis
    proof (cases "getitem support_df ''respondentEmail''")
      case (Inl e)
      then show ?thesis by (simp add: main_def key att day pass conv need Let_def)
    next
      case emails: (Inr emails)
      let ?w4 = "?w2\<lparr>stdout := stdout ?w2 @ [Line ''Students in need of support: '', Line [], Series emails]\<rparr>"
      obtain w5 r where up: "canvas_upload (gradebook_fails ev) (course_users ev) c ?w4 = (w5, r)"
        by (cases "canvas_upload (gradebook_fails ev) (course_users ev) c ?w4")
      have "report_csv w5 = Some (report (np_sum ev) (np_div ev) c)"
        using canvas_upload_report_csv [OF up] by simp
      with up show ?thesis
        by (cases r) (simp_all add: main_def key att day pass conv need emails Let_def)
    qed
  qed
qed

lemma main_success:
  assumes key: "keyphrase a = Some k"
    and att: "get_attendance (form_responses ev) (form_q_titles ev) = Inr df1"
    and day: "filter_by_day (pd_parse_time ev) df1 (date a) = Inr df2"
    and pass: "filter_by_passphrase (fuzz_ratio ev) df2 (py_lower (py_strip k)) = Inr df3"
    and fin: "snd (main ev a w) = Inr ()"
  shows "\<exists>c. convert_numeric_cols (pd_parse_num ev) df3 = Inr c \<and> out_csv (fst (main ev a w)) = Some c"
  using fin
  by (auto simp: main_def key att day pass Let_def split: sum.splits prod.splits)

subsection \<open>The keyphrase validator\<close>

text \<open>
  C3, as stated, fails: of two records in the window, one answers with the keyphrase and
  the other left the question out, so that its answer is missing. The first scores 100,
  and the validator raises AttributeError and returns no record.
\<close>

theorem filter_by_passphrase_counterexample_missing:
  "ex_ratio (py_lower (py_strip '' Graphs '')) (py_lower (py_strip ''graphs'')) = 100
   \<and> filter_by_passphrase ex_ratio
       \<lparr>columns = [''respondentEmail'', ckey], dtypes = [Object, Object],
        rows = [[Str ''a@x.edu'', Str '' Graphs ''], [Str ''b@x.edu'', NaN]]\<rparr>
       (py_lower (py_strip ''graphs'')) =
       Inl AttributeError"
  by code_simp

text \<open>
  C3, amended. Take a frame that has the answer column, and the stripped, lower-cased
  keyphrase, which is what \<^verbatim>\<open>main\<close> passes. When every record holds a string in the
  answer column, the validator returns, in their order, exactly the records whose
  stripped, lower-cased answer scores at least 70 against that keyphrase; each carries
  the normalized answer in place of the original and is otherwise unchanged. (Over a
  frame without records the frame returned has no records and no columns either.) When
  some record holds no string there (the answer is missing), the validator raises
  AttributeError and returns nothing. In a run of \<^verbatim>\<open>main\<close> whose time window returned
  the frame, an error of the validator ends the run, and its result is the frame the run
  goes on with: \<^verbatim>\<open>convert_numeric_cols\<close> is applied to it, and the report is computed
  from what that returns.
\<close>

theorem filter_by_passphrase_retains:
  assumes loc: "get_loc (columns df) ckey = Some i"
  shows "(map (\<lambda>r. iloc r i) (rows df) = map Str answers \<longrightarrow>
            (\<exists>out. filter_by_passphrase ratio df (py_lower (py_strip k)) = Inr out
               \<and> columns out = (if rows df = [] then [] else columns df)
               \<and> rows out =
                   map (\<lambda>(a, r). (map (iloc r) [0..<length (columns df)])[i := Str (py_lower (py_strip a))])
                     (filter (\<lambda>(a, r). 70 \<le> ratio (py_lower (py_strip a)) (py_lower (py_strip k)))
                        (zip answers (rows df)))))
       \<and> ((\<exists>r \<in> set (rows df). \<forall>s. iloc r i \<noteq> Str s) \<longrightarrow>
            filter_by_passphrase ratio df (py_lower (py_strip k)) = Inl AttributeError)
       \<and> (keyphrase a = Some k
            \<and> get_attendance (form_responses ev) (form_q_titles ev) = Inr df1
            \<and> filter_by_day (pd_parse_time ev) df1 (date a) = Inr df
            \<and> fuzz_ratio ev = ratio \<longrightarrow>
            (case filter_by_passphrase ratio df (py_lower (py_strip k)) of
               Inl e \<Rightarrow>
                 main ev a w = (w\<lparr>stdout := stdout w @ [Line (''Connecting to '' @ course_name ev)]\<rparr>, Inl e)
             | Inr out \<Rightarrow>
                 (case convert_numeric_cols (pd_parse_num ev) out of
                    Inl e \<Rightarrow>
                      main ev a w =
                        (w\<lparr>stdout := stdout w @ [Line (''Connecting to '' @ course_name ev)]\<rparr>, Inl e)
                  | Inr c \<Rightarrow>
                      report_csv (fst (main ev a w)) = Some (report (np_sum ev) (np_div ev) c))))"
proof (intro conjI impI)
  assume strs: "map (\<lambda>r. iloc r i) (rows df) = map Str answers"
  show "\<exists>out. filter_by_passphrase ratio df (py_lower (py_strip k)) = Inr out
               \<and> columns out = (if rows df = [] then [] else columns df)
               \<and> rows out =
                   map (\<lambda>(a, r). (map (iloc r) [0..<length (columns df)])[i := Str (py_lower (py_strip a))])
                     (filter (\<lambda>(a, r). 70 \<le> ratio (py_lower (py_strip a)) (py_lower (py_strip k)))
                        (zip answers (rows df)))"
  proof (cases "rows df = []")
    case True
    then show ?thesis
      unfolding filter_by_passphrase_empty [OF loc True] by simp
  next
    case False
    then show ?thesis
      unfolding filter_by_passphrase_run [OF loc strs False] by (simp add: FUZZ_THRESHOLD_def)
  qed
next
  assume "\<exists>r \<in> set (rows df). \<forall>s. iloc r i \<noteq> Str s"
  then show "filter_by_passphrase ratio df (py_lower (py_strip k)) = Inl AttributeError"
    by (rule filter_by_passphrase_not_string [OF loc])
next
  assume h: "keyphrase a = Some k
            \<and> get_attendance (form_responses ev) (form_q_titles ev) = Inr df1
            \<and> filter_by_day (pd_parse_time ev) df1 (date a) = Inr df
            \<and> fuzz_ratio ev = ratio"
  then have key: "keyphrase a = Some k"
    and att: "get_attendance (form_responses ev) (form_q_titles ev) = Inr df1"
    and day: "filter_by_day (pd_parse_time ev) df1 (date a) = Inr df"
    and r: "ratio = fuzz_ratio ev"
    by simp_all
  show "case filter_by_passphrase ratio df (py_lower (py_strip k)) of
               Inl e \<Rightarrow>
                 main ev a w = (w\<lparr>stdout := stdout w @ [Line (''Connecting to '' @ course_name ev)]\<rparr>, Inl e)
             | Inr out \<Rightarrow>
                 (case convert_numeric_cols (pd_parse_num ev) out of
                    Inl e \<Rightarrow>
                      main ev a w =
                        (w\<lparr>stdout := stdout w @ [Line (''Connecting to '' @ course_name ev)]\<rparr>, Inl e)
                  | Inr c \<Rightarrow>
                      report_csv (fst (main ev a w)) = Some (report (np_sum ev) (np_div ev) c))"
  proof (cases "filter_by_passphrase ratio df (py_lower (py_strip k))")
    case (Inl e)
    then show ?thesis
      using main_validator_raises [OF key att day, of e w] by (simp add: r)
  next
    case pass: (Inr out)
    show ?thesis
    proof (cases "convert_numeric_cols (pd_parse_num ev) out")
      case (Inl e)
      then show ?thesis
        using main_convert_raises [OF key att day, of out e w] pass by (simp add: r)
    next
      case (Inr c)
      then show ?thesis
        using main_report [OF key att day, of out c w] pass by (simp add: r)
    qed
  qed
qed

theorem filter_by_passphrase_retains_witness:
  "(\<exists>out. filter_by_passphrase ex_ratio ex_in_window ''graphs'' = Inr out
       \<and> columns out = columns ex_in_window
       \<and> rows out = [[Str ''r-a@x.edu'', Str ''2024-01-15T19:30:00Z'', Str ''2024-01-15T19:30:00Z'',
                      Str ''a@x.edu'', Str ''graph'', Str ''1'']])
   \<and> (\<exists>out. filter_by_passphrase ex_ratio (ex_answers []) ''graphs'' = Inr out
       \<and> columns out = [] \<and> rows out = [])
   \<and> filter_by_passphrase ex_ratio
       \<lparr>columns = [''respondentEmail'', ckey], dtypes = [Object, Object],
        rows = [[Str ''a@x.edu'', Str ''graphs''], [Str ''b@x.edu'', NaN]]\<rparr> ''graphs'' =
       Inl AttributeError
   \<and> report_csv (fst (main ex_env ex_args ex_world)) =
       Some [(''Understanding of the topic'', Some (Finite 1))]"
proof -
  have n: "py_lower (py_strip '' Graphs'') = ''graphs''" "py_lower (py_strip ''  Graph '') = ''graph''"
    "py_lower (py_strip ''Trees'') = ''trees''"
    by code_simp+
  have loc: "get_loc (columns ex_in_window) ckey = Some 4"
    by (simp add: ex_in_window_def ckey_def)
  have strs: "map (\<lambda>r. iloc r 4) (rows ex_in_window) = map Str [''Trees'', ''  Graph '']"
    by (simp add: ex_in_window_def iloc_def)
  note run = filter_by_passphrase_retains [OF loc, of "[''Trees'', ''  Graph '']" ex_ratio "'' Graphs''"
      ex_args ex_env ex_normalized ex_world]
  have ne: "rows ex_in_window \<noteq> []"
    by (simp add: ex_in_window_def)
  from run strs
  have "\<exists>out. filter_by_passphrase ex_ratio ex_in_window (py_lower (py_strip '' Graphs'')) = Inr out
       \<and> columns out = (if rows ex_in_window = [] then [] else columns ex_in_window)
       \<and> rows out =
           map (\<lambda>(a, r). (map (iloc r) [0..<length (columns ex_in_window)])[4 := Str (py_lower (py_strip a))])
             (filter (\<lambda>(a, r). 70 \<le> ex_ratio (py_lower (py_strip a)) (py_lower (py_strip '' Graphs'')))
                (zip [''Trees'', ''  Graph ''] (rows ex_in_window)))"
    (is "\<exists>out. _ \<and> _ \<and> rows out = ?kept")
    by blast
  moreover have "?kept = [[Str ''r-a@x.edu'', Str ''2024-01-15T19:30:00Z'', Str ''2024-01-15T19:30:00Z'',
                      Str ''a@x.edu'', Str ''graph'', Str ''1'']]"
    by code_simp
  ultimately have first: "\<exists>out. filter_by_passphrase ex_ratio ex_in_window ''graphs'' = Inr out
       \<and> columns out = columns ex_in_window
       \<and> rows out = [[Str ''r-a@x.edu'', Str ''2024-01-15T19:30:00Z'', Str ''2024-01-15T19:30:00Z'',
                      Str ''a@x.edu'', Str ''graph'', Str ''1'']]"
    using ne by (simp only: n if_False)
  have loc0: "get_loc (columns (ex_answers [])) ckey = Some 1"
    by (simp add: ex_answers_def ckey_def)
  have "map (\<lambda>r. iloc r 1) (rows (ex_answers [])) = map Str []"
    by (simp add: ex_answers_def)
  with filter_by_passphrase_retains [OF loc0, of "[]" ex_ratio "'' Graphs''"]
  have second: "\<exists>out. filter_by_passphrase ex_ratio (ex_answers []) ''graphs'' = Inr out
       \<and> columns out = [] \<and> rows out = []"
    by (simp add: n ex_answers_def)
  let ?d = "\<lparr>columns = [''respondentEmail'', ckey], dtypes = [Object, Object],
        rows = [[Str ''a@x.edu'', Str ''graphs''], [Str ''b@x.edu'', NaN]]\<rparr>"
  have loc1: "get_loc (columns ?d) ckey = Some 1"
    by (simp add: ckey_def)
  have bad: "\<exists>r \<in> set (rows ?d). \<forall>s. iloc r 1 \<noteq> Str s"
    by (simp add: iloc_def)
  from filter_by_passphrase_retains [OF loc1, of _ ex_ratio "'' Graphs''"] bad
  have third: "filter_by_passphrase ex_ratio ?d ''graphs'' = Inl AttributeError"
    unfolding n by blast
  have key: "keyphrase ex_args = Some '' Graphs''"
    by (simp add: ex_args_def)
  have att: "get_attendance (form_responses ex_env) (form_q_titles ex_env) = Inr ex_normalized"
    by code_simp
  have day: "filter_by_day (pd_parse_time ex_env) ex_normalized (date ex_args) = Inr ex_in_window"
    by code_simp
  have e: "fuzz_ratio ex_env = ex_ratio"
    by (simp add: ex_env_def)
  have pass: "filter_by_passphrase ex_ratio ex_in_window ''graphs'' =
      Inr (ex_in_window\<lparr>rows := [[Str ''r-a@x.edu'', Str ''2024-01-15T19:30:00Z'',
             Str ''2024-01-15T19:30:00Z'', Str ''a@x.edu'', Str ''graph'', Str ''1'']]\<rparr>)"
    by code_simp
  have conv: "convert_numeric_cols (pd_parse_num ex_env)
      (ex_in_window\<lparr>rows := [[Str ''r-a@x.edu'', Str ''2024-01-15T19:30:00Z'',
             Str ''2024-01-15T19:30:00Z'', Str ''a@x.edu'', Str ''graph'', Str ''1'']]\<rparr>) =
      Inr \<lparr>columns = columns ex_in_window,
           dtypes = [Object, Object, Object, Object, Object, Number],
           rows = [[Str ''r-a@x.edu'', Str ''2024-01-15T19:30:00Z'',
             Str ''2024-01-15T19:30:00Z'', Str ''a@x.edu'', Str ''graph'', Num (Finite 1)]]\<rparr>"
    by code_simp
  have rep: "report (np_sum ex_env) (np_div ex_env)
      \<lparr>columns = columns ex_in_window,
           dtypes = [Object, Object, Object, Object, Object, Number],
           rows = [[Str ''r-a@x.edu'', Str ''2024-01-15T19:30:00Z'',
             Str ''2024-01-15T19:30:00Z'', Str ''a@x.edu'', Str ''graph'', Num (Finite 1)]]\<rparr> =
      [(''Understanding of the topic'', Some (Finite 1))]"
    by code_simp
  from run key att day e
  have fourth: "report_csv (fst (main ex_env ex_args ex_world)) =
       Some [(''Understanding of the topic'', Some (Finite 1))]"
    unfolding n by (simp add: pass conv rep)
  from first second third fourth show ?thesis by blast
qed

subsection \<open>The report\<close>

lemma set_select: "set (select keep xs) \<subseteq> set xs"
  unfolding select_def by (auto dest: set_zip_rightD)

lemma get_attendance_dtypes:
  assumes "get_attendance responses q = Inr df"
  shows "set (dtypes df) \<subseteq> {Object}"
proof -
  have a: "set (dtypes (from_dict responses)) \<subseteq> {Object}"
    by (auto simp: from_dict_def Let_def)
  have b: "set (dtypes (drop_columns d ls)) \<subseteq> set (dtypes d)" for d ls
    by (simp add: drop_columns_def Let_def set_select)
  from assms obtain d keys where c: "clean_column_index (from_dict responses) = Inr (d, keys)"
    and df: "dtypes df = dtypes (drop_columns d (filter (\<lambda>k. q k = None) keys))"
    by (auto simp: get_attendance_def Let_def split: sum.splits)
  from c have "dtypes d = dtypes (drop_columns (from_dict responses)
      (filter (\<lambda>x. endswith x ''questionId'') (columns (from_dict responses))))"
    by (auto simp: clean_column_index_def Let_def split: option.splits if_splits)
  then have "set (dtypes d) \<subseteq> set (dtypes (from_dict responses))"
    by (simp only: b)
  with a have "set (dtypes d) \<subseteq> {Object}" by blast
  moreover have "set (dtypes df) \<subseteq> set (dtypes d)"
    unfolding df by (rule b)
  ultimately show ?thesis by blast
qed

lemma filter_by_day_dtypes: "filter_by_day parse_time df d = Inr out \<Longrightarrow> dtypes out = dtypes df"
  by (auto simp: filter_by_day_def split: sum.splits)

lemma dtype_at_Object: "set (dtypes df) \<subseteq> {Object} \<Longrightarrow> dtype_at df i = Object"
  by (auto simp: dtype_at_def dest: nth_mem)

lemma numbers_to_numeric:
  "numbers (map (\<lambda>r. to_numeric parse_num (iloc r i)) rs) =
   List.map_filter (\<lambda>r. case iloc r i of Str s \<Rightarrow> parse_num s | Num x \<Rightarrow> Some x | NaN \<Rightarrow> None) rs"
  by (induction rs) (auto simp: to_numeric_def List.map_filter_simps split: cell.splits option.splits)

text \<open>
  C5. Take a run of \<^verbatim>\<open>main\<close> and the frame \<open>df3\<close> its keyphrase validator returned,
  the validated records. When it has at least one record, the report the run writes has
  one entry for each column whose name contains hours, Help, Understanding or Speed (the
  columns \<^verbatim>\<open>convert_numeric_cols\<close> makes numeric), in column order, and none for any
  other column. The entry is computed from the values of the column that read as numbers,
  the others being missing: it is missing (None) when there is no such value, and
  otherwise their float64 sum divided by their count. When the validated frame has
  columns and no record, no column is numeric and the report is empty. When it has no
  columns (the time window was empty), the run ends with IndexError and writes no report.
\<close>

theorem report_means:
  assumes key: "keyphrase a = Some k"
    and att: "get_attendance (form_responses ev) (form_q_titles ev) = Inr df1"
    and day: "filter_by_day (pd_parse_time ev) df1 (date a) = Inr df2"
    and pass: "filter_by_passphrase (fuzz_ratio ev) df2 (py_lower (py_strip k)) = Inr df3"
  shows "(rows df3 \<noteq> [] \<longrightarrow>
            report_csv (fst (main ev a w)) =
              Some (map (\<lambda>i. (columns df3 ! i,
                          let xs = List.map_filter
                                     (\<lambda>r. case iloc r i of
                                            Str s \<Rightarrow> pd_parse_num ev s
                                          | Num x \<Rightarrow> Some x
                                          | NaN \<Rightarrow> None)
                                     (rows df3)
                          in if xs = [] then None
                             else (case np_sum ev xs of
                                     None \<Rightarrow> None
                                   | Some s \<Rightarrow> Some (np_div ev s (length xs)))))
                     (filter (\<lambda>i. any_in [''hours'', ''Help'', ''Understanding'', ''Speed''] (columns df3 ! i))
                        [0..<length (columns df3)])))
       \<and> (rows df3 = [] \<and> columns df3 \<noteq> [] \<longrightarrow> report_csv (fst (main ev a w)) = Some [])
       \<and> (columns df3 = [] \<longrightarrow>
            main ev a w =
              (w\<lparr>stdout := stdout w @ [Line (''Connecting to '' @ course_name ev)]\<rparr>, Inl IndexError))"
proof (intro conjI impI)
  have "set (dtypes df3) \<subseteq> insert Object (set (dtypes df2))"
    using filter_by_passphrase_result [OF pass] by simp
  then have "set (dtypes df3) \<subseteq> {Object}"
    using get_attendance_dtypes [OF att] filter_by_day_dtypes [OF day] by auto
  then have obj: "dtype_at df3 i = Object" for i
    by (rule dtype_at_Object)
  {
    assume ne: "rows df3 \<noteq> []"
    let ?sig = "\<lambda>i. any_in [''hours'', ''Help'', ''Understanding'', ''Speed''] (columns df3 ! i)"
    let ?n = "length (columns df3)"
    have cols: "columns df3 \<noteq> []" using filter_by_passphrase_result [OF pass] ne by simp
    from convert_total [OF cols] obtain c where conv: "convert_numeric_cols (pd_parse_num ev) df3 = Inr c"
      by blast
    have f: "filter (\<lambda>i. dtype_at c i = Number) [0..<?n] = filter ?sig [0..<?n]"
      by (rule filter_cong) (auto simp: convert_Inr(5) [OF conv ne] obj)
    have "report (np_sum ev) (np_div ev) c =
          map (\<lambda>i. (columns df3 ! i, mean (np_sum ev) (np_div ev) (map (\<lambda>r. iloc r i) (rows c))))
            (filter ?sig [0..<?n])"
      unfolding report_def convert_Inr(2) [OF conv] f ..
    also have "\<dots> = map (\<lambda>i. (columns df3 ! i,
            mean (np_sum ev) (np_div ev) (map (\<lambda>r. to_numeric (pd_parse_num ev) (iloc r i)) (rows df3))))
          (filter ?sig [0..<?n])"
      by (rule map_cong) (auto simp: column_convert [OF conv ne])
    finally have "report (np_sum ev) (np_div ev) c =
          map (\<lambda>i. (columns df3 ! i,
                          let xs = List.map_filter
                                     (\<lambda>r. case iloc r i of
                                            Str s \<Rightarrow> pd_parse_num ev s
                                          | Num x \<Rightarrow> Some x
                                          | NaN \<Rightarrow> None)
                                     (rows df3)
                          in if xs = [] then None
                             else (case np_sum ev xs of
                                     None \<Rightarrow> None
                                   | Some s \<Rightarrow> Some (np_div ev s (length xs)))))
            (filter ?sig [0..<?n])"
      by (simp add: mean_def numbers_to_numeric)
    then show "report_csv (fst (main ev a w)) =
              Some (map (\<lambda>i. (columns df3 ! i,
                          let xs = List.map_filter
                                     (\<lambda>r. case iloc r i of
                                            Str s \<Rightarrow> pd_parse_num ev s
                                          | Num x \<Rightarrow> Some x
                                          | NaN \<Rightarrow> None)
                                     (rows df3)
                          in if xs = [] then None
                             else (case np_sum ev xs of
                                     None \<Rightarrow> None
                                   | Some s \<Rightarrow> Some (np_div ev s (length xs)))))
                     (filter ?sig [0..<?n]))"
      unfolding main_report [OF key att day pass conv] by simp
  }
  {
    assume h: "rows df3 = [] \<and> columns df3 \<noteq> []"
    then obtain c where conv: "convert_numeric_cols (pd_parse_num ev) df3 = Inr c"
      using convert_total by blast
    with h have c: "c = df3" using convert_Inr(3) by blast
    have "filter (\<lambda>i. dtype_at df3 i = Number) [0..<length (columns df3)] = []"
      by (simp add: obj)
    then have "report (np_sum ev) (np_div ev) c = []"
      unfolding c report_def by simp
    then show "report_csv (fst (main ev a w)) = Some []"
      unfolding main_report [OF key att day pass conv] by simp
  }
  {
    assume "columns df3 = []"
    then have "convert_numeric_cols (pd_parse_num ev) df3 = Inl IndexError"
      by (rule convert_no_columns)
    then show "main ev a w =
        (w\<lparr>stdout := stdout w @ [Line (''Connecting to '' @ course_name ev)]\<rparr>, Inl IndexError)"
      by (rule main_convert_raises [OF key att day pass])
  }
qed

theorem report_means_witness:
  "report_csv (fst (main (ex_survey [(''a@x.edu'', ''2024-01-15T19:00:00Z'', ''graphs'', ''2''),
                                     (''b@x.edu'', ''2024-01-15T19:10:00Z'', ''graphs'', ''n/a''),
                                     (''c@x.edu'', ''2024-01-15T19:30:00Z'', ''graphs'', ''4'')])
                       ex_args ex_world)) =
     Some [(''Understanding of the topic'', Some (Finite 3))]
   \<and> report_csv (fst (main (ex_survey [(''a@x.edu'', ''2024-01-15T19:00:00Z'', ''graphs'', ''n/a'')])
                       ex_args ex_world)) =
     Some [(''Understanding of the topic'', None)]
   \<and> report_csv (fst (main (ex_survey [(''a@x.edu'', ''2024-01-15T19:00:00Z'', ''trees'', ''2'')])
                       ex_args ex_world)) =
     Some []
   \<and> main (ex_survey [(''a@x.edu'', ''2024-01-15T20:00:01Z'', ''graphs'', ''2'')]) ex_args ex_world =
       (ex_world\<lparr>stdout := [Line ''Connecting to ENGR 103'']\<rparr>, Inl IndexError)"
proof -
  have key: "keyphrase ex_args = Some '' Graphs''"
    by (simp add: ex_args_def)
  have n: "py_lower (py_strip '' Graphs'') = ''graphs''"
    by code_simp
  let ?r1 = "[(''a@x.edu'', ''2024-01-15T19:00:00Z'', ''graphs'', ''2''),
              (''b@x.edu'', ''2024-01-15T19:10:00Z'', ''graphs'', ''n/a''),
              (''c@x.edu'', ''2024-01-15T19:30:00Z'', ''graphs'', ''4'')]"
  have att1: "get_attendance (form_responses (ex_survey ?r1)) (form_q_titles (ex_survey ?r1)) =
      Inr (ex_table ?r1)"
    by code_simp
  have day1: "filter_by_day (pd_parse_time (ex_survey ?r1)) (ex_table ?r1) (date ex_args) =
      Inr (ex_table ?r1)"
    by code_simp
  have pass1: "filter_by_passphrase (fuzz_ratio (ex_survey ?r1)) (ex_table ?r1)
      (py_lower (py_strip '' Graphs'')) = Inr (ex_table ?r1)"
    by code_simp
  have ne1: "rows (ex_table ?r1) \<noteq> []"
    by (simp add: ex_table_def)
  from report_means [OF key att1 day1 pass1, of ex_world] ne1
  have "report_csv (fst (main (ex_survey ?r1) ex_args ex_world)) =
      Some (map (\<lambda>i. (columns (ex_table ?r1) ! i,
                          let xs = List.map_filter
                                     (\<lambda>r. case iloc r i of
                                            Str s \<Rightarrow> pd_parse_num (ex_survey ?r1) s
                                          | Num x \<Rightarrow> Some x
                                          | NaN \<Rightarrow> None)
                                     (rows (ex_table ?r1))
                          in if xs = [] then None
                             else (case np_sum (ex_survey ?r1) xs of
                                     None \<Rightarrow> None
                                   | Some s \<Rightarrow> Some (np_div (ex_survey ?r1) s (length xs)))))
                     (filter (\<lambda>i. any_in [''hours'', ''Help'', ''Understanding'', ''Speed'']
                                    (columns (ex_table ?r1) ! i))
                        [0..<length (columns (ex_table ?r1))]))"
    by blast
  also have "\<dots> = Some [(''Understanding of the topic'', Some (Finite 3))]"
    by code_simp
  finally have first: "report_csv (fst (main (ex_survey ?r1) ex_args ex_world)) =
      Some [(''Understanding of the topic'', Some (Finite 3))]" .
  let ?r2 = "[(''a@x.edu'', ''2024-01-15T19:00:00Z'', ''graphs'', ''n/a'')]"
  have att2: "get_attendance (form_responses (ex_survey ?r2)) (form_q_titles (ex_survey ?r2)) =
      Inr (ex_table ?r2)"
    by code_simp
  have day2: "filter_by_day (pd_parse_time (ex_survey ?r2)) (ex_table ?r2) (date ex_args) =
      Inr (ex_table ?r2)"
    by code_simp
  have pass2: "filter_by_passphrase (fuzz_ratio (ex_survey ?r2)) (ex_table ?r2)
      (py_lower (py_strip '' Graphs'')) = Inr (ex_table ?r2)"
    by code_simp
  have ne2: "rows (ex_table ?r2) \<noteq> []"
    by (simp add: ex_table_def)
  from report_means [OF key att2 day2 pass2, of ex_world] ne2
  have "report_csv (fst (main (ex_survey ?r2) ex_args ex_world)) =
      Some (map (\<lambda>i. (columns (ex_table ?r2) ! i,
                          let xs = List.map_filter
                                     (\<lambda>r. case iloc r i of
                                            Str s \<Rightarrow> pd_parse_num (ex_survey ?r2) s
                                          | Num x \<Rightarrow> Some x
                                          | NaN \<Rightarrow> None)
                                     (rows (ex_table ?r2))
                          in if xs = [] then None
                             else (case np_sum (ex_survey ?r2) xs of
                                     None \<Rightarrow> None
                                   | Some s \<Rightarrow> Some (np_div (ex_survey ?r2) s (length xs)))))
                     (filter (\<lambda>i. any_in [''hours'', ''Help'', ''Understanding'', ''Speed'']
                                    (columns (ex_table ?r2) ! i))
                        [0..<length (columns (ex_table ?r2))]))"
    by blast
  also have "\<dots> = Some [(''Understanding of the topic'', None)]"
    by code_simp
  finally have second: "report_csv (fst (main (ex_survey ?r2) ex_args ex_world)) =
      Some [(''Understanding of the topic'', None)]" .
  let ?r3 = "[(''a@x.edu'', ''2024-01-15T19:00:00Z'', ''trees'', ''2'')]"
  have att3: "get_attendance (form_responses (ex_survey ?r3)) (form_q_titles (ex_survey ?r3)) =
      Inr (ex_table ?r3)"
    by code_simp
  have day3: "filter_by_day (pd_parse_time (ex_survey ?r3)) (ex_table ?r3) (date ex_args) =
      Inr (ex_table ?r3)"
    by code_simp
  have pass3: "filter_by_passphrase (fuzz_ratio (ex_survey ?r3)) (ex_table ?r3)
      (py_lower (py_strip '' Graphs'')) = Inr (ex_table [])"
    by code_simp
  have e3: "rows (ex_table []) = [] \<and> columns (ex_table []) \<noteq> []"
    by (simp add: ex_table_def)
  from report_means [OF key att3 day3 pass3, of ex_world] e3
  have third: "report_csv (fst (main (ex_survey ?r3) ex_args ex_world)) = Some []"
    by blast
  let ?r4 = "[(''a@x.edu'', ''2024-01-15T20:00:01Z'', ''graphs'', ''2'')]"
  have att4: "get_attendance (form_responses (ex_survey ?r4)) (form_q_titles (ex_survey ?r4)) =
      Inr (ex_table ?r4)"
    by code_simp
  have day4: "filter_by_day (pd_parse_time (ex_survey ?r4)) (ex_table ?r4) (date ex_args) =
      Inr (ex_table [])"
    by code_simp
  have pass4: "filter_by_passphrase (fuzz_ratio (ex_survey ?r4)) (ex_table [])
      (py_lower (py_strip '' Graphs'')) = Inr \<lparr>columns = [], dtypes = [], rows = []\<rparr>"
    by code_simp
  from report_means [OF key att4 day4 pass4, of ex_world]
  have "main (ex_survey ?r4) ex_args ex_world =
      (ex_world\<lparr>stdout := stdout ex_world @ [Line (''Connecting to '' @ course_name (ex_survey ?r4))]\<rparr>,
       Inl IndexError)"
    by simp
  then have fourth: "main (ex_survey ?r4) ex_args ex_world =
       (ex_world\<lparr>stdout := [Line ''Connecting to ENGR 103'']\<rparr>, Inl IndexError)"
    by (simp add: ex_world_def ex_survey_def ex_env_def)
  from first second third fourth show ?thesis by blast
qed

subsection \<open>The record table\<close>

text \<open>
  C10. Take a run of \<^verbatim>\<open>main\<close> that ends normally, the frame \<open>df2\<close> its time window
  returned, and the answers its records hold in the concept-of-the-day column, all
  strings. The keyphrase validator returns a frame whose column holds, for the records
  it keeps, the stripped and lower-cased answers in place of the originals.
  \<^verbatim>\<open>convert_numeric_cols\<close> returns a frame, leaves that column as it is, and the frame
  it returns is the record table the run writes to disk. (The assistance listing prints
  the \<^verbatim>\<open>respondentEmail\<close> column only.)
\<close>

theorem main_writes_normalized:
  assumes att: "get_attendance (form_responses ev) (form_q_titles ev) = Inr df1"
    and day: "filter_by_day (pd_parse_time ev) df1 (date a) = Inr df2"
    and key: "keyphrase a = Some k"
    and loc: "get_loc (columns df2) ckey = Some i"
    and strs: "map (\<lambda>r. iloc r i) (rows df2) = map Str answers"
    and fin: "snd (main ev a w) = Inr ()"
  shows "\<exists>df3 df4. filter_by_passphrase (fuzz_ratio ev) df2 (py_lower (py_strip k)) = Inr df3
     \<and> map (\<lambda>r. iloc r i) (rows df3) =
         map (\<lambda>s. Str (py_lower (py_strip s)))
           (filter (\<lambda>s. 70 \<le> fuzz_ratio ev (py_lower (py_strip s)) (py_lower (py_strip k))) answers)
     \<and> convert_numeric_cols (pd_parse_num ev) df3 = Inr df4
     \<and> out_csv (fst (main ev a w)) = Some df4
     \<and> get_loc (columns df4) ckey = Some i
     \<and> map (\<lambda>r. iloc r i) (rows df4) = map (\<lambda>r. iloc r i) (rows df3)"
proof -
  let ?n = "length (columns df2)"
  let ?kp = "py_lower (py_strip k)"
  let ?keep = "\<lambda>s. FUZZ_THRESHOLD \<le> fuzz_ratio ev (py_lower (py_strip s)) ?kp"
  have ne: "rows df2 \<noteq> []"
  proof
    assume emp: "rows df2 = []"
    have "main ev a w =
        (w\<lparr>stdout := stdout w @ [Line (''Connecting to '' @ course_name ev)]\<rparr>, Inl IndexError)"
      by (rule main_convert_raises [OF key att day filter_by_passphrase_empty [OF loc emp]])
         (simp add: convert_no_columns)
    with fin show False by simp
  qed
  define df3 where "df3 = df2\<lparr>dtypes := (dtypes df2)[i := Object],
       rows := map (\<lambda>(a, r). (map (iloc r) [0..<?n])[i := Str (py_lower (py_strip a))])
                 (filter (\<lambda>(a, r). ?keep a) (zip answers (rows df2)))\<rparr>"
  have run: "filter_by_passphrase (fuzz_ratio ev) df2 ?kp = Inr df3"
    unfolding df3_def by (rule filter_by_passphrase_run [OF loc strs ne])
  have i: "i < ?n" "columns df2 ! i = ckey" using get_loc_Some [OF loc] by simp_all
  have len: "length answers = length (rows df2)" using strs by (metis length_map)
  have "map (\<lambda>r. iloc r i) (rows df3) =
        map (\<lambda>(a, r). Str (py_lower (py_strip a))) (filter (\<lambda>(a, r). ?keep a) (zip answers (rows df2)))"
    unfolding df3_def using i(1) by (simp add: iloc_def comp_def case_prod_unfold)
  also have "\<dots> = map (\<lambda>s. Str (py_lower (py_strip s)))
        (map fst (filter (\<lambda>(a, r). ?keep a) (zip answers (rows df2))))"
    by (simp add: comp_def case_prod_unfold)
  also have "\<dots> = map (\<lambda>s. Str (py_lower (py_strip s))) (filter ?keep answers)"
    unfolding map_fst_filter_zip [OF len] ..
  finally have col3: "map (\<lambda>r. iloc r i) (rows df3) =
      map (\<lambda>s. Str (py_lower (py_strip s))) (filter ?keep answers)" .
  have cols3: "columns df3 = columns df2" unfolding df3_def by simp
  from main_success [OF key att day run fin]
  obtain df4 where conv: "convert_numeric_cols (pd_parse_num ev) df3 = Inr df4"
    and out: "out_csv (fst (main ev a w)) = Some df4"
    by blast
  have loc': "get_loc (columns df4) ckey = Some i"
    unfolding convert_Inr(2) [OF conv] cols3 by (rule loc)
  have keep: "map (\<lambda>r. iloc r i) (rows df4) = map (\<lambda>r. iloc r i) (rows df3)"
    by (rule convert_keeps_column [OF conv]) (simp_all add: cols3 i ckey_not_signal)
  from run col3 conv out loc' keep show ?thesis
    unfolding FUZZ_THRESHOLD_def by blast
qed

theorem main_writes_normalized_witness:
  "\<exists>df3 df4. filter_by_passphrase ex_ratio ex_in_window ''graphs'' = Inr df3
     \<and> map (\<lambda>r. iloc r 4) (rows df3) = [Str ''graph'']
     \<and> convert_numeric_cols ex_parse_num df3 = Inr df4
     \<and> out_csv (fst (main ex_env ex_args ex_world)) = Some df4
     \<and> get_loc (columns df4) ckey = Some 4
     \<and> map (\<lambda>r. iloc r 4) (rows df4) = [Str ''graph'']"
proof -
  have att: "get_attendance (form_responses ex_env) (form_q_titles ex_env) = Inr ex_normalized"
    by code_simp
  have day: "filter_by_day (pd_parse_time ex_env) ex_normalized (date ex_args) = Inr ex_in_window"
    by code_simp
  have key: "keyphrase ex_args = Some '' Graphs''"
    by (simp add: ex_args_def)
  have loc: "get_loc (columns ex_in_window) ckey = Some 4"
    by (simp add: ex_in_window_def ckey_def)
  have strs: "map (\<lambda>r. iloc r 4) (rows ex_in_window) = map Str [''Trees'', ''  Graph '']"
    by (simp add: ex_in_window_def iloc_def)
  have fin: "snd (main ex_env ex_args ex_world) = Inr ()"
    by code_simp
  have n: "py_lower (py_strip '' Graphs'') = ''graphs''" "py_lower (py_strip ''  Graph '') = ''graph''"
    "py_lower (py_strip ''Trees'') = ''trees''"
    by code_simp+
  have e: "fuzz_ratio ex_env = ex_ratio" "pd_parse_num ex_env = ex_parse_num"
    by (simp_all add: ex_env_def)
  from main_writes_normalized [OF att day key loc strs fin]
  obtain df3 df4 where
    "filter_by_passphrase ex_ratio ex_in_window ''graphs'' = Inr df3"
    "map (\<lambda>r. iloc r 4) (rows df3) = [Str ''graph'']"
    "convert_numeric_cols ex_parse_num df3 = Inr df4"
    "out_csv (fst (main ex_env ex_args ex_world)) = Some df4"
    "get_loc (columns df4) ckey = Some 4"
    "map (\<lambda>r. iloc r 4) (rows df4) = map (\<lambda>r. iloc r 4) (rows df3)"
    by (auto simp: n e ex_ratio_def)
  then show ?thesis by auto
qed

end
